theory Spec2Isabelle
  imports Main
begin

section \<open>Strings\<close>

text \<open>
  Go strings are byte sequences; \<open>string\<close> is a list of 8-bit characters.  The helpers
  below are the functions of package \<open>strings\<close> that the controller calls.
\<close>

definition strings_HasPrefix :: "string \<Rightarrow> string \<Rightarrow> bool" where
  "strings_HasPrefix s p = (length p \<le> length s \<and> take (length p) s = p)"

definition strings_HasSuffix :: "string \<Rightarrow> string \<Rightarrow> bool" where
  "strings_HasSuffix s p = (length p \<le> length s \<and> drop (length s - length p) s = p)"

definition strings_TrimPrefix :: "string \<Rightarrow> string \<Rightarrow> string" where
  "strings_TrimPrefix s p = (if strings_HasPrefix s p then drop (length p) s else s)"

text \<open>
  \<open>strings.EqualFold\<close> compares under Unicode simple case folding.  Host names are
  ASCII, and on ASCII text the folding identifies exactly the letters \<open>A\<close>..\<open>Z\<close> with
  \<open>a\<close>..\<open>z\<close>; bytes outside ASCII are compared as they are.
\<close>

definition foldASCII :: "char \<Rightarrow> char" where
  "foldASCII c =
     (case map_of (zip ''ABCDEFGHIJKLMNOPQRSTUVWXYZ'' ''abcdefghijklmnopqrstuvwxyz'') c of
        Some l \<Rightarrow> l
      | None \<Rightarrow> c)"

definition strings_EqualFold :: "string \<Rightarrow> string \<Rightarrow> bool" where
  "strings_EqualFold s t = (map foldASCII s = map foldASCII t)"

text \<open>
  \<open>strings.ReplaceAll\<close> is only called with a pattern of one byte (\<open>"."\<close> and
  \<open>"*"\<close>), so the pattern is a character here: every occurrence is replaced.
\<close>

definition strings_ReplaceAll :: "string \<Rightarrow> char \<Rightarrow> string \<Rightarrow> string" where
  "strings_ReplaceAll s old new = concat (map (\<lambda>c. if c = old then new else [c]) s)"

text \<open>\<open>strings.Compare\<close>: bytewise lexicographic comparison, returning -1, 0 or 1.\<close>

fun strings_Compare :: "string \<Rightarrow> string \<Rightarrow> int" where
  "strings_Compare [] [] = 0"
| "strings_Compare [] (y # ys) = - 1"
| "strings_Compare (x # xs) [] = 1"
| "strings_Compare (x # xs) (y # ys) =
     (if (of_char x :: nat) < of_char y then - 1
      else if (of_char y :: nat) < of_char x then 1
      else strings_Compare xs ys)"

section \<open>API objects\<close>

text \<open>
  The Kubernetes and Gateway API structs, with the fields the controller reads or
  writes.  A Go pointer field is an \<open>option\<close>, a slice is a list (every slice field
  of the route spec is \<open>omitempty\<close>, so a nil and an empty slice are not told apart),
  an \<open>int32\<close> is an \<open>int\<close> (ports and weights are copied, never computed with).
  Field names carry a prefix for their struct.  \<open>PathType\<close>, \<open>PathMatchType\<close> and
  \<open>FromNamespaces\<close> are string types in Go whose values the API server restricts to
  the constants listed here.
\<close>

type_synonym Hostname = string

text \<open>A \<open>types.NamespacedName\<close>: namespace first, then name.\<close>

type_synonym NamespacedName = "string \<times> string"

datatype PathType = PathTypeExact | PathTypePrefix | PathTypeImplementationSpecific

datatype PathMatchType = PathMatchExact | PathMatchPathPrefix | PathMatchRegularExpression

datatype FromNamespaces =
  NamespacesFromAll | NamespacesFromSelector | NamespacesFromSame | NamespacesFromNone

record ServiceBackendPort =
  sbp_Name :: string
  sbp_Number :: int

record IngressServiceBackend =
  isb_Name :: string
  isb_Port :: ServiceBackendPort

record TypedLocalObjectReference =
  tlo_APIGroup :: "string option"
  tlo_Kind :: string
  tlo_Name :: string

record IngressBackend =
  ib_Service :: "IngressServiceBackend option"
  ib_Resource :: "TypedLocalObjectReference option"

record HTTPIngressPath =
  hip_Path :: string
  hip_PathType :: "PathType option"
  hip_Backend :: IngressBackend

record HTTPIngressRuleValue =
  hirv_Paths :: "HTTPIngressPath list"

record IngressRule =
  ir_Host :: string
  ir_HTTP :: "HTTPIngressRuleValue option"

record IngressSpec =
  is_DefaultBackend :: "IngressBackend option"
  is_Rules :: "IngressRule list"

record Ingress =
  ing_Namespace :: string
  ing_Name :: string
  ing_UID :: string
  ing_Spec :: IngressSpec

record OwnerReference =
  or_APIVersion :: string
  or_Kind :: string
  or_Name :: string
  or_UID :: string
  or_Controller :: "bool option"
  or_BlockOwnerDeletion :: "bool option"

record ObjectMeta =
  om_Namespace :: string
  om_Name :: string
  om_OwnerReferences :: "OwnerReference list"

record RouteNamespaces =
  rn_From :: "FromNamespaces option"

record AllowedRoutes =
  ar_Namespaces :: "RouteNamespaces option"

record Listener =
  l_Name :: string
  l_Hostname :: "Hostname option"
  l_AllowedRoutes :: "AllowedRoutes option"

text \<open>
  \<open>gw_Group\<close> and \<open>gw_Kind\<close> are what \<open>gateway.GroupVersionKind()\<close> returns for the
  object.
\<close>

record Gateway =
  gw_Group :: string
  gw_Kind :: string
  gw_Namespace :: string
  gw_Name :: string
  gw_Listeners :: "Listener list"

record ParentReference =
  pr_Group :: "string option"
  pr_Kind :: "string option"
  pr_Namespace :: "string option"
  pr_Name :: string
  pr_SectionName :: "string option"

record HTTPPathMatch =
  pm_Type :: "PathMatchType option"
  pm_Value :: "string option"

record HTTPRouteMatch =
  rm_Path :: "HTTPPathMatch option"

record BackendObjectReference =
  bor_Group :: "string option"
  bor_Kind :: "string option"
  bor_Name :: string
  bor_Namespace :: "string option"
  bor_Port :: "int option"

record HTTPBackendRef =
  br_Ref :: BackendObjectReference
  br_Weight :: "int option"

record HTTPRouteRule =
  rr_Matches :: "HTTPRouteMatch list"
  rr_BackendRefs :: "HTTPBackendRef list"

record HTTPRouteSpec =
  rs_ParentRefs :: "ParentReference list"
  rs_Hostnames :: "Hostname list"
  rs_Rules :: "HTTPRouteRule list"

record HTTPRoute =
  hr_ObjectMeta :: ObjectMeta
  hr_Spec :: HTTPRouteSpec

record ServicePort =
  sp_Name :: string
  sp_Port :: int

record Service =
  svc_Ports :: "ServicePort list"

section \<open>JSON encoding of route specs\<close>

text \<open>
  \<open>isEqual\<close> compares the texts \<open>json.Marshal\<close> writes for its two arguments.  That
  text is the rendering of a JSON document; the document is modelled as a tree, and two
  texts are equal exactly when the trees are.  The encoders follow the struct tags of
  the Gateway API types: embedded structs are inlined, and a nil pointer or an empty
  slice tagged \<open>omitempty\<close> leaves its key out.  For these types \<open>json.Marshal\<close> has no
  failing case, so the encoders always return \<open>Some\<close>.
\<close>

datatype json = JString string | JNumber int | JArray "json list" | JObject "(string \<times> json) list"

definition omitempty_ptr :: "string \<Rightarrow> ('a \<Rightarrow> json) \<Rightarrow> 'a option \<Rightarrow> (string \<times> json) list" where
  "omitempty_ptr key enc p = (case p of None \<Rightarrow> [] | Some v \<Rightarrow> [(key, enc v)])"

definition omitempty_slice :: "string \<Rightarrow> ('a \<Rightarrow> json) \<Rightarrow> 'a list \<Rightarrow> (string \<times> json) list" where
  "omitempty_slice key enc xs = (if xs = [] then [] else [(key, JArray (map enc xs))])"

definition json_PathMatchType :: "PathMatchType \<Rightarrow> json" where
  "json_PathMatchType t =
     (case t of
        PathMatchExact \<Rightarrow> JString ''Exact''
      | PathMatchPathPrefix \<Rightarrow> JString ''PathPrefix''
      | PathMatchRegularExpression \<Rightarrow> JString ''RegularExpression'')"

definition json_ParentReference :: "ParentReference \<Rightarrow> json" where
  "json_ParentReference p =
     JObject (omitempty_ptr ''group'' JString (pr_Group p)
            @ omitempty_ptr ''kind'' JString (pr_Kind p)
            @ omitempty_ptr ''namespace'' JString (pr_Namespace p)
            @ [(''name'', JString (pr_Name p))]
            @ omitempty_ptr ''sectionName'' JString (pr_SectionName p))"

definition json_HTTPPathMatch :: "HTTPPathMatch \<Rightarrow> json" where
  "json_HTTPPathMatch m =
     JObject (omitempty_ptr ''type'' json_PathMatchType (pm_Type m)
            @ omitempty_ptr ''value'' JString (pm_Value m))"

definition json_HTTPRouteMatch :: "HTTPRouteMatch \<Rightarrow> json" where
  "json_HTTPRouteMatch m = JObject (omitempty_ptr ''path'' json_HTTPPathMatch (rm_Path m))"

definition json_HTTPBackendRef :: "HTTPBackendRef \<Rightarrow> json" where
  "json_HTTPBackendRef b =
     JObject (omitempty_ptr ''group'' JString (bor_Group (br_Ref b))
            @ omitempty_ptr ''kind'' JString (bor_Kind (br_Ref b))
            @ [(''name'', JString (bor_Name (br_Ref b)))]
            @ omitempty_ptr ''namespace'' JString (bor_Namespace (br_Ref b))
            @ omitempty_ptr ''port'' JNumber (bor_Port (br_Ref b))
            @ omitempty_ptr ''weight'' JNumber (br_Weight b))"

definition json_HTTPRouteRule :: "HTTPRouteRule \<Rightarrow> json" where
  "json_HTTPRouteRule r =
     JObject (omitempty_slice ''matches'' json_HTTPRouteMatch (rr_Matches r)
            @ omitempty_slice ''backendRefs'' json_HTTPBackendRef (rr_BackendRefs r))"

definition json_HTTPRouteSpec :: "HTTPRouteSpec \<Rightarrow> json" where
  "json_HTTPRouteSpec s =
     JObject (omitempty_slice ''parentRefs'' json_ParentReference (rs_ParentRefs s)
            @ omitempty_slice ''hostnames'' JString (rs_Hostnames s)
            @ omitempty_slice ''rules'' json_HTTPRouteRule (rs_Rules s))"

definition json_Marshal_HTTPBackendRef :: "HTTPBackendRef \<Rightarrow> json option" where
  "json_Marshal_HTTPBackendRef b = Some (json_HTTPBackendRef b)"

definition json_Marshal_HTTPRouteSpec :: "HTTPRouteSpec \<Rightarrow> json option" where
  "json_Marshal_HTTPRouteSpec s = Some (json_HTTPRouteSpec s)"

section \<open>Helpers of the controller\<close>

text \<open>\<open>generateHTTPRouteName\<close> as in \<open>ingress_controller.go\<close>.\<close>

definition generateHTTPRouteName :: "string \<Rightarrow> string \<Rightarrow> string" where
  "generateHTTPRouteName ingressName hostname =
     (let cleanHostname = strings_ReplaceAll hostname CHR ''.'' ''-'';
          cleanHostname = strings_ReplaceAll cleanHostname CHR ''*'' ''wildcard''
      in ingressName @ ''-'' @ cleanHostname)"

text \<open>The variant of the utilities, which returns the bare name for an empty host.\<close>

definition generateHTTPRouteName_utils :: "string \<Rightarrow> string \<Rightarrow> string" where
  "generateHTTPRouteName_utils ingressName hostname =
     (if hostname = [] then ingressName
      else (let cleanHostname = strings_ReplaceAll hostname CHR ''.'' ''-'';
                cleanHostname = strings_ReplaceAll cleanHostname CHR ''*'' ''wildcard''
            in ingressName @ ''-'' @ cleanHostname))"

definition createOwnerReference :: "Ingress \<Rightarrow> OwnerReference" where
  "createOwnerReference ingress =
     \<lparr> or_APIVersion = ''networking.k8s.io/v1'',
       or_Kind = ''Ingress'',
       or_Name = ing_Name ingress,
       or_UID = ing_UID ingress,
       or_Controller = Some True,
       or_BlockOwnerDeletion = Some True \<rparr>"

definition createParentRef :: "Gateway \<Rightarrow> Listener \<Rightarrow> ParentReference" where
  "createParentRef gateway listener =
     \<lparr> pr_Group = Some (gw_Group gateway),
       pr_Kind = Some (gw_Kind gateway),
       pr_Namespace = Some (gw_Namespace gateway),
       pr_Name = gw_Name gateway,
       pr_SectionName = Some (l_Name listener) \<rparr>"

definition createPathMatch :: "HTTPIngressPath \<Rightarrow> HTTPPathMatch" where
  "createPathMatch path =
     (let pathMatch = \<lparr> pm_Type = None, pm_Value = Some (hip_Path path) \<rparr>
      in case hip_PathType path of
           None \<Rightarrow> pathMatch \<lparr> pm_Type := None \<rparr>
         | Some PathTypeExact \<Rightarrow> pathMatch \<lparr> pm_Type := Some PathMatchExact \<rparr>
         | Some PathTypePrefix \<Rightarrow> pathMatch \<lparr> pm_Type := Some PathMatchPathPrefix \<rparr>
         | Some PathTypeImplementationSpecific \<Rightarrow>
             pathMatch \<lparr> pm_Type := Some PathMatchRegularExpression \<rparr>)"

text \<open>
  \<open>extractHostnames\<close>: the hosts of the rules in order of first appearance; the Go map
  \<open>hostnameMap\<close> is the function \<open>seen\<close>.  The host is not tested for being empty.
\<close>

fun extractHostnames_loop ::
  "(string \<Rightarrow> bool) \<Rightarrow> Hostname list \<Rightarrow> IngressRule list \<Rightarrow> Hostname list" where
  "extractHostnames_loop seen hostnames [] = hostnames"
| "extractHostnames_loop seen hostnames (rule # rules) =
     (if \<not> seen (ir_Host rule)
      then extractHostnames_loop (seen (ir_Host rule := True)) (hostnames @ [ir_Host rule]) rules
      else extractHostnames_loop seen hostnames rules)"

definition extractHostnames :: "IngressRule list \<Rightarrow> Hostname list" where
  "extractHostnames rules = extractHostnames_loop (\<lambda>_. False) [] rules"

definition hostnameMatches :: "Hostname \<Rightarrow> Hostname \<Rightarrow> bool" where
  "hostnameMatches ingressHost listenerHost =
     (if strings_HasPrefix listenerHost ''*.'' then
        (let fqdn = strings_TrimPrefix listenerHost ''*.''
         in \<not> strings_EqualFold ingressHost fqdn \<and> strings_HasSuffix ingressHost fqdn)
      else strings_EqualFold ingressHost listenerHost)"

text \<open>
  \<open>isEqual\<close> takes \<open>interface{}\<close> arguments; the encoder of the argument type is the
  parameter \<open>marshal\<close>, with \<open>None\<close> for an encoding error.
\<close>

definition isEqual :: "('a \<Rightarrow> json option) \<Rightarrow> 'a \<Rightarrow> 'a \<Rightarrow> bool" where
  "isEqual marshal a b =
     (case marshal a of
        None \<Rightarrow> False
      | Some l \<Rightarrow> (case marshal b of None \<Rightarrow> False | Some r \<Rightarrow> l = r))"

fun containsBackendRef :: "HTTPBackendRef list \<Rightarrow> HTTPBackendRef \<Rightarrow> bool" where
  "containsBackendRef [] ref = False"
| "containsBackendRef (backendRef # backendRefs) ref =
     (if isEqual json_Marshal_HTTPBackendRef backendRef ref then True
      else containsBackendRef backendRefs ref)"

fun isOwnedBy_loop :: "OwnerReference list \<Rightarrow> OwnerReference \<Rightarrow> bool" where
  "isOwnedBy_loop [] owner = False"
| "isOwnedBy_loop (reference # references) owner =
     (if or_APIVersion reference = or_APIVersion owner
         \<and> or_Kind reference = or_Kind owner
         \<and> or_Name reference = or_Name owner
      then True
      else isOwnedBy_loop references owner)"

definition isOwnedBy :: "ObjectMeta \<Rightarrow> OwnerReference \<Rightarrow> bool" where
  "isOwnedBy metadata owner = isOwnedBy_loop (om_OwnerReferences metadata) owner"

definition isListenerAccessibleFromNamespace :: "Listener \<Rightarrow> string \<Rightarrow> string \<Rightarrow> bool" where
  "isListenerAccessibleFromNamespace listener gatewayNamespace ingressNamespace =
     (let nsSelector =
            (case l_AllowedRoutes listener of
               None \<Rightarrow> NamespacesFromSame
             | Some allowedRoutes \<Rightarrow>
                 (case ar_Namespaces allowedRoutes of
                    None \<Rightarrow> NamespacesFromSame
                  | Some namespaces \<Rightarrow>
                      (case rn_From namespaces of
                         None \<Rightarrow> NamespacesFromSame
                       | Some from \<Rightarrow> from)))
      in nsSelector = NamespacesFromAll
         \<or> (nsSelector = NamespacesFromSame \<and> gatewayNamespace = ingressNamespace))"

text \<open>
  \<open>findMatchingGateways\<close>: the two nested loops thread the set of keys already seen
  (\<open>parentRefMap\<close>) and the result.  \<open>createParentRef\<close> sets every pointer of the
  reference, so the key is built from the values it points to.
\<close>

definition parentRefKey :: "Gateway \<Rightarrow> Listener \<Rightarrow> string" where
  "parentRefKey gateway listener =
     gw_Group gateway @ ''/'' @ gw_Kind gateway @ ''/'' @ gw_Namespace gateway @ ''/''
       @ gw_Name gateway @ ''/'' @ l_Name listener"

fun findMatchingGateways_listeners ::
  "string \<Rightarrow> Hostname \<Rightarrow> Gateway \<Rightarrow> Listener list
     \<Rightarrow> (string \<Rightarrow> bool) \<times> ParentReference list \<Rightarrow> (string \<Rightarrow> bool) \<times> ParentReference list" where
  "findMatchingGateways_listeners ingressNamespace hostname gateway [] st = st"
| "findMatchingGateways_listeners ingressNamespace hostname gateway (listener # listeners) st =
     (if \<not> isListenerAccessibleFromNamespace listener (gw_Namespace gateway) ingressNamespace
      then findMatchingGateways_listeners ingressNamespace hostname gateway listeners st
      else
        (let matches = (case l_Hostname listener of
                          None \<Rightarrow> True
                        | Some h \<Rightarrow> hostnameMatches hostname h)
         in if matches
            then (if \<not> fst st (parentRefKey gateway listener)
                  then findMatchingGateways_listeners ingressNamespace hostname gateway listeners
                         ((fst st) (parentRefKey gateway listener := True),
                          snd st @ [createParentRef gateway listener])
                  else findMatchingGateways_listeners ingressNamespace hostname gateway listeners st)
            else findMatchingGateways_listeners ingressNamespace hostname gateway listeners st))"

fun findMatchingGateways_gateways ::
  "string \<Rightarrow> Hostname \<Rightarrow> Gateway list
     \<Rightarrow> (string \<Rightarrow> bool) \<times> ParentReference list \<Rightarrow> (string \<Rightarrow> bool) \<times> ParentReference list" where
  "findMatchingGateways_gateways ingressNamespace hostname [] st = st"
| "findMatchingGateways_gateways ingressNamespace hostname (gateway # gateways) st =
     findMatchingGateways_gateways ingressNamespace hostname gateways
       (findMatchingGateways_listeners ingressNamespace hostname gateway (gw_Listeners gateway) st)"

definition findMatchingGateways :: "string \<Rightarrow> Hostname \<Rightarrow> Gateway list \<Rightarrow> ParentReference list" where
  "findMatchingGateways ingressNamespace hostname gateways =
     snd (findMatchingGateways_gateways ingressNamespace hostname gateways (\<lambda>_. False, []))"

fun findCatchAllGateways_listeners ::
  "string \<Rightarrow> Gateway \<Rightarrow> Listener list \<Rightarrow> ParentReference list \<Rightarrow> ParentReference list" where
  "findCatchAllGateways_listeners ingressNamespace gateway [] parentRefs = parentRefs"
| "findCatchAllGateways_listeners ingressNamespace gateway (listener # listeners) parentRefs =
     (if \<not> isListenerAccessibleFromNamespace listener (gw_Namespace gateway) ingressNamespace
      then findCatchAllGateways_listeners ingressNamespace gateway listeners parentRefs
      else if (case l_Hostname listener of None \<Rightarrow> True | Some h \<Rightarrow> strings_HasPrefix h ''*'')
      then findCatchAllGateways_listeners ingressNamespace gateway listeners
             (parentRefs @ [createParentRef gateway listener])
      else findCatchAllGateways_listeners ingressNamespace gateway listeners parentRefs)"

fun findCatchAllGateways_gateways ::
  "string \<Rightarrow> Gateway list \<Rightarrow> ParentReference list \<Rightarrow> ParentReference list" where
  "findCatchAllGateways_gateways ingressNamespace [] parentRefs = parentRefs"
| "findCatchAllGateways_gateways ingressNamespace (gateway # gateways) parentRefs =
     findCatchAllGateways_gateways ingressNamespace gateways
       (findCatchAllGateways_listeners ingressNamespace gateway (gw_Listeners gateway) parentRefs)"

definition findCatchAllGateways :: "string \<Rightarrow> Gateway list \<Rightarrow> ParentReference list" where
  "findCatchAllGateways ingressNamespace gateways =
     findCatchAllGateways_gateways ingressNamespace gateways []"

section \<open>The cluster\<close>

text \<open>
  The API server the controller's client talks to, as an in-memory store: the Ingress,
  Service and HTTPRoute objects by namespaced name, the Gateways in the order \<open>List\<close>
  returns them, and the log of the write calls issued so far.  \<open>Get\<close> fails with
  \<open>ErrNotFound\<close> for an absent object, \<open>Create\<close> with \<open>ErrAlreadyExists\<close> for a
  present one, \<open>Update\<close> with \<open>ErrNotFound\<close> for an absent one; a stored object is
  read back as it was written.  \<open>Errorf\<close> is an error made by \<open>fmt.Errorf\<close>.
\<close>

datatype error = ErrNotFound | ErrAlreadyExists | Errorf string

datatype write_call = Create HTTPRoute | Update HTTPRoute

record cluster =
  ingresses :: "NamespacedName \<rightharpoonup> Ingress"
  gatewayList :: "Gateway list"
  services :: "NamespacedName \<rightharpoonup> Service"
  httproutes :: "NamespacedName \<rightharpoonup> HTTPRoute"
  writes :: "write_call list"

definition errors_IsNotFound :: "error \<Rightarrow> bool" where
  "errors_IsNotFound err = (err = ErrNotFound)"

definition client_Get_Ingress :: "cluster \<Rightarrow> NamespacedName \<Rightarrow> error + Ingress" where
  "client_Get_Ingress c key = (case ingresses c key of None \<Rightarrow> Inl ErrNotFound | Some obj \<Rightarrow> Inr obj)"

definition client_Get_Service :: "cluster \<Rightarrow> NamespacedName \<Rightarrow> error + Service" where
  "client_Get_Service c key = (case services c key of None \<Rightarrow> Inl ErrNotFound | Some obj \<Rightarrow> Inr obj)"

definition client_Get_HTTPRoute :: "cluster \<Rightarrow> NamespacedName \<Rightarrow> error + HTTPRoute" where
  "client_Get_HTTPRoute c key = (case httproutes c key of None \<Rightarrow> Inl ErrNotFound | Some obj \<Rightarrow> Inr obj)"

definition routeKey :: "HTTPRoute \<Rightarrow> NamespacedName" where
  "routeKey obj = (om_Namespace (hr_ObjectMeta obj), om_Name (hr_ObjectMeta obj))"

definition client_Create :: "cluster \<Rightarrow> HTTPRoute \<Rightarrow> error + cluster" where
  "client_Create c obj =
     (case httproutes c (routeKey obj) of
        Some _ \<Rightarrow> Inl ErrAlreadyExists
      | None \<Rightarrow> Inr (c \<lparr> httproutes := (httproutes c) (routeKey obj \<mapsto> obj),
                         writes := writes c @ [Create obj] \<rparr>))"

definition client_Update :: "cluster \<Rightarrow> HTTPRoute \<Rightarrow> error + cluster" where
  "client_Update c obj =
     (case httproutes c (routeKey obj) of
        None \<Rightarrow> Inl ErrNotFound
      | Some _ \<Rightarrow> Inr (c \<lparr> httproutes := (httproutes c) (routeKey obj \<mapsto> obj),
                           writes := writes c @ [Update obj] \<rparr>))"

section \<open>The reconciler of \<open>ingress_controller.go\<close>\<close>

record IngressReconciler =
  RequireHostname :: bool

text \<open>The loop over \<open>svc.Spec.Ports\<close> in \<open>mapBackendRef\<close>: the first port of that name.\<close>

fun mapBackendRef_ports :: "ServicePort list \<Rightarrow> string \<Rightarrow> int option" where
  "mapBackendRef_ports [] name = None"
| "mapBackendRef_ports (svcPort # svcPorts) name =
     (if sp_Name svcPort = name then Some (sp_Port svcPort)
      else mapBackendRef_ports svcPorts name)"

definition mapBackendRef :: "cluster \<Rightarrow> string \<Rightarrow> IngressBackend \<Rightarrow> error + HTTPBackendRef" where
  "mapBackendRef c namespace ref =
     (case
        (case ib_Resource ref of
           Some resource \<Rightarrow>
             Inr \<lparr> bor_Group = tlo_APIGroup resource,
                   bor_Kind = Some (tlo_Kind resource),
                   bor_Name = tlo_Name resource,
                   bor_Namespace = Some namespace,
                   bor_Port = None \<rparr>
         | None \<Rightarrow>
             (case ib_Service ref of
                Some service \<Rightarrow>
                  (let objectRef = \<lparr> bor_Group = Some [],
                                      bor_Kind = Some ''Service'',
                                      bor_Name = isb_Name service,
                                      bor_Namespace = Some namespace,
                                      bor_Port = None \<rparr>
                   in if sbp_Number (isb_Port service) \<noteq> 0
                      then Inr (objectRef \<lparr> bor_Port := Some (sbp_Number (isb_Port service)) \<rparr>)
                      else if sbp_Name (isb_Port service) \<noteq> []
                      then (case client_Get_Service c (namespace, isb_Name service) of
                              Inl err \<Rightarrow> Inl err
                            | Inr svc \<Rightarrow>
                                Inr (objectRef \<lparr> bor_Port :=
                                       mapBackendRef_ports (svc_Ports svc) (sbp_Name (isb_Port service)) \<rparr>))
                      else Inr objectRef)
              | None \<Rightarrow>
                  Inr \<lparr> bor_Group = None, bor_Kind = None, bor_Name = [],
                        bor_Namespace = None, bor_Port = None \<rparr>))
      of
        Inl err \<Rightarrow> Inl err
      | Inr objectRef \<Rightarrow> Inr \<lparr> br_Ref = objectRef, br_Weight = Some 1 \<rparr>)"

text \<open>
  \<open>createHTTPRouteRules\<close>: the loop over the paths of one rule and the loop over the
  rules, both appending to \<open>result\<close>; the first backend that cannot be mapped ends both.
\<close>

fun createHTTPRouteRules_paths ::
  "cluster \<Rightarrow> string \<Rightarrow> HTTPBackendRef option \<Rightarrow> HTTPIngressPath list \<Rightarrow> HTTPRouteRule list
     \<Rightarrow> error + HTTPRouteRule list" where
  "createHTTPRouteRules_paths c namespace defaultBackendRef [] result = Inr result"
| "createHTTPRouteRules_paths c namespace defaultBackendRef (path # paths) result =
     (case mapBackendRef c namespace (hip_Backend path) of
        Inl err \<Rightarrow> Inl err
      | Inr ref \<Rightarrow>
          createHTTPRouteRules_paths c namespace defaultBackendRef paths
            (result @
              [\<lparr> rr_Matches = [\<lparr> rm_Path = Some (createPathMatch path) \<rparr>],
                 rr_BackendRefs =
                   (case defaultBackendRef of
                      None \<Rightarrow> [ref]
                    | Some d \<Rightarrow> if \<not> containsBackendRef [ref] d then [ref] @ [d] else [ref]) \<rparr>]))"

fun createHTTPRouteRules_rules ::
  "cluster \<Rightarrow> string \<Rightarrow> HTTPBackendRef option \<Rightarrow> IngressRule list \<Rightarrow> HTTPRouteRule list
     \<Rightarrow> error + HTTPRouteRule list" where
  "createHTTPRouteRules_rules c namespace defaultBackendRef [] result = Inr result"
| "createHTTPRouteRules_rules c namespace defaultBackendRef (rule # rules) result =
     (case ir_HTTP rule of
        Some http \<Rightarrow>
          (case createHTTPRouteRules_paths c namespace defaultBackendRef (hirv_Paths http) result of
             Inl err \<Rightarrow> Inl err
           | Inr result' \<Rightarrow> createHTTPRouteRules_rules c namespace defaultBackendRef rules result')
      | None \<Rightarrow>
          (case defaultBackendRef of
             Some d \<Rightarrow>
               createHTTPRouteRules_rules c namespace defaultBackendRef rules
                 (result @ [\<lparr> rr_Matches = [], rr_BackendRefs = [d] \<rparr>])
           | None \<Rightarrow> createHTTPRouteRules_rules c namespace defaultBackendRef rules result))"

definition createHTTPRouteRules ::
  "cluster \<Rightarrow> string \<Rightarrow> IngressRule list \<Rightarrow> HTTPBackendRef option \<Rightarrow> error + HTTPRouteRule list" where
  "createHTTPRouteRules c namespace rules defaultBackendRef =
     createHTTPRouteRules_rules c namespace defaultBackendRef rules []"

definition createDefaultBackendSpec ::
  "string \<Rightarrow> HTTPBackendRef \<Rightarrow> Gateway list \<Rightarrow> error + HTTPRouteSpec" where
  "createDefaultBackendSpec ingressNamespace backendRef gateways =
     (let parentRefs = findCatchAllGateways ingressNamespace gateways
      in if length parentRefs = 0
         then Inl (Errorf ''no catch-all gateways found for default backend'')
         else Inr \<lparr> rs_ParentRefs = parentRefs,
                    rs_Hostnames = [],
                    rs_Rules = [\<lparr> rr_Matches = [], rr_BackendRefs = [backendRef] \<rparr>] \<rparr>)"

text \<open>
  \<open>reconcileHTTPRoute\<close> returns its error (\<open>None\<close> for \<open>nil\<close>) and the cluster after
  its calls.  Which of its branches ran shows in the write log: a \<open>Create\<close>, an
  \<open>Update\<close>, or nothing.
\<close>

definition reconcileHTTPRoute ::
  "cluster \<Rightarrow> NamespacedName \<Rightarrow> OwnerReference \<Rightarrow> HTTPRouteSpec \<Rightarrow> error option \<times> cluster" where
  "reconcileHTTPRoute c name owner spec =
     (case client_Get_HTTPRoute c name of
        Inl err \<Rightarrow>
          (if errors_IsNotFound err
           then (case client_Create c
                        \<lparr> hr_ObjectMeta = \<lparr> om_Namespace = fst name, om_Name = snd name,
                                            om_OwnerReferences = [owner] \<rparr>,
                          hr_Spec = spec \<rparr> of
                   Inl err \<Rightarrow> (Some err, c)
                 | Inr c' \<Rightarrow> (None, c'))
           else (Some err, c))
      | Inr httpRoute \<Rightarrow>
          (if isOwnedBy (hr_ObjectMeta httpRoute) owner
              \<and> \<not> isEqual json_Marshal_HTTPRouteSpec (hr_Spec httpRoute) spec
           then (case client_Update c (httpRoute \<lparr> hr_Spec := spec \<rparr>) of
                   Inl err \<Rightarrow> (Some err, c)
                 | Inr c' \<Rightarrow> (None, c'))
           else (None, c)))"

text \<open>
  The loop of \<open>Reconcile\<close> over the host names: one route per host, \<open>continue\<close> on a
  host without rules or without parent references, \<open>return\<close> on the first error.
\<close>

fun Reconcile_hostnames ::
  "NamespacedName \<Rightarrow> Ingress \<Rightarrow> HTTPBackendRef option \<Rightarrow> Gateway list \<Rightarrow> OwnerReference
     \<Rightarrow> Hostname list \<Rightarrow> cluster \<Rightarrow> error option \<times> cluster" where
  "Reconcile_hostnames req ingress defaultBackendRef gateways owner [] c = (None, c)"
| "Reconcile_hostnames req ingress defaultBackendRef gateways owner (hostname # hostnames) c =
     (case createHTTPRouteRules c (fst req)
             (filter (\<lambda>rule. ir_Host rule = hostname) (is_Rules (ing_Spec ingress)))
             defaultBackendRef of
        Inl err \<Rightarrow> (Some err, c)
      | Inr rules \<Rightarrow>
          if length rules = 0
          then Reconcile_hostnames req ingress defaultBackendRef gateways owner hostnames c
          else if length (findMatchingGateways (fst req) hostname gateways) = 0
          then Reconcile_hostnames req ingress defaultBackendRef gateways owner hostnames c
          else (case reconcileHTTPRoute c
                       (fst req, generateHTTPRouteName (snd req) hostname) owner
                       \<lparr> rs_ParentRefs = findMatchingGateways (fst req) hostname gateways,
                         rs_Hostnames = [hostname],
                         rs_Rules = rules \<rparr> of
                  (Some err, c') \<Rightarrow> (Some err, c')
                | (None, c') \<Rightarrow>
                    Reconcile_hostnames req ingress defaultBackendRef gateways owner hostnames c'))"

definition Reconcile :: "IngressReconciler \<Rightarrow> cluster \<Rightarrow> NamespacedName \<Rightarrow> error option \<times> cluster" where
  "Reconcile r c req =
     (case client_Get_Ingress c req of
        Inl err \<Rightarrow> (if errors_IsNotFound err then (None, c) else (Some err, c))
      | Inr ingress \<Rightarrow>
          (let gateways = gatewayList c
           in if length gateways = 0 then (None, c)
              else
                (let owner = createOwnerReference ingress
                 in case (case is_DefaultBackend (ing_Spec ingress) of
                            None \<Rightarrow> Inr None
                          | Some backend \<Rightarrow>
                              (case mapBackendRef c (fst req) backend of
                                 Inl err \<Rightarrow> Inl err
                               | Inr backendRef \<Rightarrow> Inr (Some backendRef))) of
                      Inl err \<Rightarrow> (Some err, c)
                    | Inr defaultBackendRef \<Rightarrow>
                        (let hostnames = extractHostnames (is_Rules (ing_Spec ingress))
                         in if length hostnames = 0
                            then (case defaultBackendRef of
                                    Some backendRef \<Rightarrow>
                                      (if \<not> RequireHostname r
                                       then (case createDefaultBackendSpec (fst req) backendRef gateways of
                                               Inl err \<Rightarrow> (Some err, c)
                                             | Inr spec \<Rightarrow> reconcileHTTPRoute c req owner spec)
                                       else (None, c))
                                  | None \<Rightarrow> (None, c))
                            else Reconcile_hostnames req ingress defaultBackendRef gateways owner
                                   hostnames c))))"

section \<open>The sorted rule list of the \<open>mapToHTTPRouteRules\<close> variant\<close>

definition compareHTTPRouteRule :: "HTTPRouteRule \<Rightarrow> HTTPRouteRule \<Rightarrow> int" where
  "compareHTTPRouteRule a b =
     (let aPath = (case rr_Matches a of
                     [] \<Rightarrow> []
                   | m # _ \<Rightarrow> (case rm_Path m of
                                 None \<Rightarrow> []
                               | Some p \<Rightarrow> (case pm_Value p of None \<Rightarrow> [] | Some v \<Rightarrow> v)));
          bPath = (case rr_Matches b of
                     [] \<Rightarrow> []
                   | m # _ \<Rightarrow> (case rm_Path m of
                                 None \<Rightarrow> []
                               | Some p \<Rightarrow> (case pm_Value p of None \<Rightarrow> [] | Some v \<Rightarrow> v)));
          cmp = strings_Compare aPath bPath
      in if cmp \<noteq> 0 then cmp
         else
           (let aBackend = (case rr_BackendRefs a of [] \<Rightarrow> [] | r # _ \<Rightarrow> bor_Name (br_Ref r));
                bBackend = (case rr_BackendRefs b of [] \<Rightarrow> [] | r # _ \<Rightarrow> bor_Name (br_Ref r))
            in strings_Compare aBackend bBackend))"

text \<open>
  \<open>slices.SortStableFunc\<close>, as the stable insertion sort it runs on short slices: an
  element moves left past its neighbour while it compares less.  On a comparison that
  is a strict weak order every stable sort returns this list.
\<close>

fun slices_insert :: "('a \<Rightarrow> 'a \<Rightarrow> int) \<Rightarrow> 'a \<Rightarrow> 'a list \<Rightarrow> 'a list" where
  "slices_insert cmp x [] = [x]"
| "slices_insert cmp x (y # ys) =
     (if cmp x y < 0 then x # y # ys else y # slices_insert cmp x ys)"

definition slices_SortStableFunc :: "'a list \<Rightarrow> ('a \<Rightarrow> 'a \<Rightarrow> int) \<Rightarrow> 'a list" where
  "slices_SortStableFunc xs cmp = foldl (\<lambda>sorted x. slices_insert cmp x sorted) [] xs"

text \<open>
  The \<open>mapBackendRef\<close> of that variant returns a pointer (\<open>Some\<close>; it never returns
  \<open>nil\<close> without an error) and sets no weight.
\<close>

definition mapBackendRef_ptr ::
  "cluster \<Rightarrow> string \<Rightarrow> IngressBackend \<Rightarrow> error + HTTPBackendRef option" where
  "mapBackendRef_ptr c namespace ref =
     (case
        (case ib_Resource ref of
           Some resource \<Rightarrow>
             Inr \<lparr> bor_Group = tlo_APIGroup resource,
                   bor_Kind = Some (tlo_Kind resource),
                   bor_Name = tlo_Name resource,
                   bor_Namespace = Some namespace,
                   bor_Port = None \<rparr>
         | None \<Rightarrow>
             (case ib_Service ref of
                Some service \<Rightarrow>
                  (let objectRef = \<lparr> bor_Group = Some [],
                                      bor_Kind = Some ''Service'',
                                      bor_Name = isb_Name service,
                                      bor_Namespace = Some namespace,
                                      bor_Port = None \<rparr>
                   in if sbp_Number (isb_Port service) \<noteq> 0
                      then Inr (objectRef \<lparr> bor_Port := Some (sbp_Number (isb_Port service)) \<rparr>)
                      else if sbp_Name (isb_Port service) \<noteq> []
                      then (case client_Get_Service c (namespace, isb_Name service) of
                              Inl err \<Rightarrow> Inl err
                            | Inr svc \<Rightarrow>
                                Inr (objectRef \<lparr> bor_Port :=
                                       mapBackendRef_ports (svc_Ports svc) (sbp_Name (isb_Port service)) \<rparr>))
                      else Inr objectRef)
              | None \<Rightarrow>
                  Inr \<lparr> bor_Group = None, bor_Kind = None, bor_Name = [],
                        bor_Namespace = None, bor_Port = None \<rparr>))
      of
        Inl err \<Rightarrow> Inl err
      | Inr objectRef \<Rightarrow> Inr (Some \<lparr> br_Ref = objectRef, br_Weight = None \<rparr>))"

fun mapToHTTPRouteRules_paths ::
  "cluster \<Rightarrow> string \<Rightarrow> HTTPIngressPath list \<Rightarrow> HTTPRouteRule list \<Rightarrow> error + HTTPRouteRule list" where
  "mapToHTTPRouteRules_paths c namespace [] result = Inr result"
| "mapToHTTPRouteRules_paths c namespace (path # paths) result =
     (case mapBackendRef_ptr c namespace (hip_Backend path) of
        Inl err \<Rightarrow> Inl err
      | Inr None \<Rightarrow> Inl (Errorf (''no backend found for path '' @ [CHR 0x27] @ hip_Path path @ [CHR 0x27]))
      | Inr (Some backendRef) \<Rightarrow>
          mapToHTTPRouteRules_paths c namespace paths
            (result @ [\<lparr> rr_Matches = [\<lparr> rm_Path = Some (createPathMatch path) \<rparr>],
                         rr_BackendRefs = [backendRef] \<rparr>]))"

fun mapToHTTPRouteRules_rules ::
  "cluster \<Rightarrow> string \<Rightarrow> IngressRule list \<Rightarrow> HTTPRouteRule list \<Rightarrow> error + HTTPRouteRule list" where
  "mapToHTTPRouteRules_rules c namespace [] result = Inr result"
| "mapToHTTPRouteRules_rules c namespace (rule # rules) result =
     (case ir_HTTP rule of
        Some http \<Rightarrow>
          (case mapToHTTPRouteRules_paths c namespace (hirv_Paths http) result of
             Inl err \<Rightarrow> Inl err
           | Inr result' \<Rightarrow> mapToHTTPRouteRules_rules c namespace rules result')
      | None \<Rightarrow> mapToHTTPRouteRules_rules c namespace rules result)"

definition mapToHTTPRouteRules ::
  "cluster \<Rightarrow> string \<Rightarrow> IngressRule list \<Rightarrow> error + HTTPRouteRule list" where
  "mapToHTTPRouteRules c namespace rules =
     (case mapToHTTPRouteRules_rules c namespace rules [] of
        Inl err \<Rightarrow> Inl err
      | Inr result \<Rightarrow> Inr (slices_SortStableFunc result compareHTTPRouteRule))"

text \<open>
  \<open>groupRulesByHostname\<close> of that variant: the Go map from host to rules is a function
  that gives no rules for a host without an entry; each rule is appended to the rules
  of its host.
\<close>

fun groupRulesByHostname_loop ::
  "(string \<Rightarrow> IngressRule list) \<Rightarrow> IngressRule list \<Rightarrow> (string \<Rightarrow> IngressRule list)" where
  "groupRulesByHostname_loop result [] = result"
| "groupRulesByHostname_loop result (rule # rules) =
     groupRulesByHostname_loop
       (result (ir_Host rule := result (ir_Host rule) @ [rule])) rules"

definition groupRulesByHostname :: "IngressRule list \<Rightarrow> (string \<Rightarrow> IngressRule list)" where
  "groupRulesByHostname rules = groupRulesByHostname_loop (\<lambda>_. []) rules"

section \<open>Observations and example objects\<close>

text \<open>
  The policy a listener declares under \<open>allowedRoutes.namespaces.from\<close>, \<open>None\<close> when
  any pointer on the way is nil.
\<close>

definition declaredFrom :: "Listener \<Rightarrow> FromNamespaces option" where
  "declaredFrom listener =
     (case l_AllowedRoutes listener of
        None \<Rightarrow> None
      | Some allowedRoutes \<Rightarrow>
          (case ar_Namespaces allowedRoutes of None \<Rightarrow> None | Some namespaces \<Rightarrow> rn_From namespaces))"

text \<open>The Gateways with the listeners removed that the namespace check rejects.\<close>

definition accessibleListeners :: "string \<Rightarrow> Gateway list \<Rightarrow> Gateway list" where
  "accessibleListeners ingressNamespace gateways =
     map (\<lambda>gateway. gateway \<lparr> gw_Listeners :=
            filter (\<lambda>listener. isListenerAccessibleFromNamespace listener (gw_Namespace gateway) ingressNamespace)
              (gw_Listeners gateway) \<rparr>) gateways"

text \<open>The sort keys of a rule, as \<open>compareHTTPRouteRule\<close> reads them.\<close>

definition firstPathValue :: "HTTPRouteRule \<Rightarrow> string" where
  "firstPathValue a =
     (case rr_Matches a of
        [] \<Rightarrow> []
      | m # _ \<Rightarrow> (case rm_Path m of
                    None \<Rightarrow> []
                  | Some p \<Rightarrow> (case pm_Value p of None \<Rightarrow> [] | Some v \<Rightarrow> v)))"

definition firstBackendName :: "HTTPRouteRule \<Rightarrow> string" where
  "firstBackendName a = (case rr_BackendRefs a of [] \<Rightarrow> [] | r # _ \<Rightarrow> bor_Name (br_Ref r))"

definition sortKey :: "HTTPRouteRule \<Rightarrow> string \<times> string" where
  "sortKey a = (firstPathValue a, firstBackendName a)"

text \<open>
  The rules of an Ingress in the order it declares them: for each rule in turn one
  route rule per path, with the path match of the path and the backend references
  \<open>backendRefsOf\<close> gives for it, or, for a rule without an HTTP section, the route rules
  \<open>withoutHTTP\<close>.
\<close>

definition declaredRules ::
  "(HTTPIngressPath \<Rightarrow> HTTPBackendRef list) \<Rightarrow> HTTPRouteRule list \<Rightarrow> IngressRule list
     \<Rightarrow> HTTPRouteRule list" where
  "declaredRules backendRefsOf withoutHTTP rules =
     concat (map (\<lambda>rule. case ir_HTTP rule of
                            Some http \<Rightarrow>
                              map (\<lambda>path. \<lparr> rr_Matches = [\<lparr> rm_Path = Some (createPathMatch path) \<rparr>],
                                            rr_BackendRefs = backendRefsOf path \<rparr>)
                                (hirv_Paths http)
                          | None \<Rightarrow> withoutHTTP)
                 rules)"

text \<open>
  The backend references of the rule of one path: in \<open>createHTTPRouteRules\<close> the mapped
  backend of the path, followed by the default backend when there is one and it does
  not encode to the same JSON; in \<open>mapToHTTPRouteRules\<close> the mapped backend alone.
\<close>

definition pathBackendRefs ::
  "cluster \<Rightarrow> string \<Rightarrow> HTTPBackendRef option \<Rightarrow> HTTPIngressPath \<Rightarrow> HTTPBackendRef list" where
  "pathBackendRefs c namespace defaultBackendRef path =
     (case mapBackendRef c namespace (hip_Backend path) of
        Inl err \<Rightarrow> []
      | Inr ref \<Rightarrow>
          (case defaultBackendRef of
             None \<Rightarrow> [ref]
           | Some d \<Rightarrow> if containsBackendRef [ref] d then [ref] else [ref, d]))"

definition pathBackendRefs_ptr :: "cluster \<Rightarrow> string \<Rightarrow> HTTPIngressPath \<Rightarrow> HTTPBackendRef list" where
  "pathBackendRefs_ptr c namespace path =
     (case mapBackendRef_ptr c namespace (hip_Backend path) of
        Inl err \<Rightarrow> []
      | Inr None \<Rightarrow> []
      | Inr (Some backendRef) \<Rightarrow> [backendRef])"

definition defaultBackendRule :: "HTTPBackendRef option \<Rightarrow> HTTPRouteRule list" where
  "defaultBackendRule defaultBackendRef =
     (case defaultBackendRef of
        None \<Rightarrow> []
      | Some d \<Rightarrow> [\<lparr> rr_Matches = [], rr_BackendRefs = [d] \<rparr>])"

text \<open>Objects for the concrete runs: an Ingress \<open>demo/web\<close> and a Gateway \<open>demo/gw\<close>.\<close>

definition ex_backend :: "string \<Rightarrow> int \<Rightarrow> IngressBackend" where
  "ex_backend name port =
     \<lparr> ib_Service = Some \<lparr> isb_Name = name, isb_Port = \<lparr> sbp_Name = [], sbp_Number = port \<rparr> \<rparr>,
       ib_Resource = None \<rparr>"

definition ex_named_backend :: "string \<Rightarrow> string \<Rightarrow> IngressBackend" where
  "ex_named_backend name portName =
     \<lparr> ib_Service = Some \<lparr> isb_Name = name, isb_Port = \<lparr> sbp_Name = portName, sbp_Number = 0 \<rparr> \<rparr>,
       ib_Resource = None \<rparr>"

definition ex_path :: "string \<Rightarrow> PathType option \<Rightarrow> IngressBackend \<Rightarrow> HTTPIngressPath" where
  "ex_path p t b = \<lparr> hip_Path = p, hip_PathType = t, hip_Backend = b \<rparr>"

definition ex_rule :: "string \<Rightarrow> HTTPIngressPath list \<Rightarrow> IngressRule" where
  "ex_rule host paths = \<lparr> ir_Host = host, ir_HTTP = Some \<lparr> hirv_Paths = paths \<rparr> \<rparr>"

definition ex_ingress :: "IngressRule list \<Rightarrow> IngressBackend option \<Rightarrow> Ingress" where
  "ex_ingress rules defaultBackend =
     \<lparr> ing_Namespace = ''demo'', ing_Name = ''web'', ing_UID = ''uid-1'',
       ing_Spec = \<lparr> is_DefaultBackend = defaultBackend, is_Rules = rules \<rparr> \<rparr>"

definition ex_listener :: "string \<Rightarrow> Hostname option \<Rightarrow> FromNamespaces option \<Rightarrow> Listener" where
  "ex_listener name hostname from =
     \<lparr> l_Name = name, l_Hostname = hostname,
       l_AllowedRoutes = Some \<lparr> ar_Namespaces = Some \<lparr> rn_From = from \<rparr> \<rparr> \<rparr>"

definition ex_gateway :: "Listener list \<Rightarrow> Gateway" where
  "ex_gateway listeners =
     \<lparr> gw_Group = ''gateway.networking.k8s.io'', gw_Kind = ''Gateway'',
       gw_Namespace = ''demo'', gw_Name = ''gw'', gw_Listeners = listeners \<rparr>"

definition ex_cluster :: "Ingress \<Rightarrow> Gateway list \<Rightarrow> cluster" where
  "ex_cluster ingress gateways =
     \<lparr> ingresses = [(''demo'', ''web'') \<mapsto> ingress],
       gatewayList = gateways,
       services = Map.empty,
       httproutes = Map.empty,
       writes = [] \<rparr>"

definition ex_spec :: "Hostname list \<Rightarrow> HTTPRouteSpec" where
  "ex_spec hostnames = \<lparr> rs_ParentRefs = [], rs_Hostnames = hostnames, rs_Rules = [] \<rparr>"

definition ex_route :: "OwnerReference list \<Rightarrow> HTTPRouteSpec \<Rightarrow> HTTPRoute" where
  "ex_route owners spec =
     \<lparr> hr_ObjectMeta = \<lparr> om_Namespace = ''demo'', om_Name = ''web-a-example-com'',
                         om_OwnerReferences = owners \<rparr>,
       hr_Spec = spec \<rparr>"

definition ex_owner :: "string \<Rightarrow> string \<Rightarrow> OwnerReference" where
  "ex_owner name uid =
     \<lparr> or_APIVersion = ''networking.k8s.io/v1'', or_Kind = ''Ingress'', or_Name = name,
       or_UID = uid, or_Controller = Some True, or_BlockOwnerDeletion = Some True \<rparr>"

definition ex_store :: "HTTPRoute \<Rightarrow> cluster" where
  "ex_store obj =
     \<lparr> ingresses = Map.empty, gatewayList = [], services = Map.empty,
       httproutes = [(''demo'', ''web-a-example-com'') \<mapsto> obj], writes = [] \<rparr>"

text \<open>
  Five Ingresses: one whose second host names a port of a Service that does not exist,
  one whose two hosts differ only where the route name does not, one whose only rule
  has no host and which has a default backend, one whose paths are declared out of
  alphabetical order, and one with two paths of the same value and backend name.
\<close>

definition ex_missing_service :: Ingress where
  "ex_missing_service =
     ex_ingress
       [ex_rule ''a.example.com'' [ex_path ''/'' (Some PathTypePrefix) (ex_backend ''a'' 80)],
        ex_rule ''b.example.com'' [ex_path ''/'' (Some PathTypePrefix) (ex_named_backend ''b'' ''http'')]]
       None"

definition ex_colliding_hosts :: Ingress where
  "ex_colliding_hosts =
     ex_ingress
       [ex_rule ''*.example.com'' [ex_path ''/'' (Some PathTypePrefix) (ex_backend ''a'' 80)],
        ex_rule ''wildcard.example.com'' [ex_path ''/'' (Some PathTypePrefix) (ex_backend ''b'' 80)]]
       None"

definition ex_hostless :: Ingress where
  "ex_hostless =
     ex_ingress [\<lparr> ir_Host = [], ir_HTTP = None \<rparr>] (Some (ex_backend ''fallback'' 80))"

definition ex_unsorted_paths :: Ingress where
  "ex_unsorted_paths =
     ex_ingress
       [ex_rule ''a.example.com''
          [ex_path ''/b'' (Some PathTypePrefix) (ex_backend ''b'' 80),
           ex_path ''/a'' (Some PathTypePrefix) (ex_backend ''a'' 80)]]
       None"

definition ex_tied_paths :: Ingress where
  "ex_tied_paths =
     ex_ingress
       [ex_rule ''a.example.com''
          [ex_path ''/b'' (Some PathTypePrefix) (ex_backend ''b'' 80),
           ex_path ''/a'' (Some PathTypePrefix) (ex_backend ''s'' 1),
           ex_path ''/a'' (Some PathTypeExact) (ex_backend ''s'' 2)]]
       None"

definition ex_catchall_gateways :: "Gateway list" where
  "ex_catchall_gateways = [ex_gateway [ex_listener ''http'' None None]]"

definition ex_exact_gateways :: "Gateway list" where
  "ex_exact_gateways = [ex_gateway [ex_listener ''http'' (Some ''a.example.com'') None]]"

section \<open>Reconciling one route\<close>

lemma isOwnedBy_loop_iff:
  "isOwnedBy_loop references owner \<longleftrightarrow>
     (\<exists>reference \<in> set references. or_APIVersion reference = or_APIVersion owner
        \<and> or_Kind reference = or_Kind owner \<and> or_Name reference = or_Name owner)"
  by (induction references) auto

lemma isEqual_refl_spec: "isEqual json_Marshal_HTTPRouteSpec spec spec"
  by (simp add: isEqual_def json_Marshal_HTTPRouteSpec_def)

text \<open>
  Claim C4.  When the object stored under the route's name is not owned by the owner
  reference of the Ingress being reconciled, \<open>reconcileHTTPRoute\<close> returns no error and
  leaves the cluster as it was: the stored object is the same and the write log has no
  new entry, whatever the desired spec is.
\<close>

theorem reconcileHTTPRoute_skips_unowned:
  assumes "httproutes c name = Some stored"
    and "\<not> isOwnedBy (hr_ObjectMeta stored) owner"
  shows "reconcileHTTPRoute c name owner spec = (None, c)"
  using assms by (simp add: reconcileHTTPRoute_def client_Get_HTTPRoute_def)

theorem reconcileHTTPRoute_skips_unowned_witness:
  "httproutes (ex_store (ex_route [ex_owner ''other'' ''uid-9''] (ex_spec [''a.example.com''])))
       (''demo'', ''web-a-example-com'')
     = Some (ex_route [ex_owner ''other'' ''uid-9''] (ex_spec [''a.example.com'']))
   \<and> \<not> isOwnedBy (hr_ObjectMeta (ex_route [ex_owner ''other'' ''uid-9''] (ex_spec [''a.example.com''])))
          (ex_owner ''web'' ''uid-1'')
   \<and> reconcileHTTPRoute (ex_store (ex_route [ex_owner ''other'' ''uid-9''] (ex_spec [''a.example.com''])))
        (''demo'', ''web-a-example-com'') (ex_owner ''web'' ''uid-1'') (ex_spec [''b.example.com''])
     = (None, ex_store (ex_route [ex_owner ''other'' ''uid-9''] (ex_spec [''a.example.com''])))"
  using reconcileHTTPRoute_skips_unowned
    [of "ex_store (ex_route [ex_owner ''other'' ''uid-9''] (ex_spec [''a.example.com'']))"
      "(''demo'', ''web-a-example-com'')"
      "ex_route [ex_owner ''other'' ''uid-9''] (ex_spec [''a.example.com''])"
      "ex_owner ''web'' ''uid-1''" "ex_spec [''b.example.com'']"]
  by (simp add: ex_store_def ex_route_def ex_owner_def isOwnedBy_def)

text \<open>
  Claim C3.  Two calls of \<open>reconcileHTTPRoute\<close> in a row with the same name, owner and
  spec, starting without an object of that name: the first call issues one \<open>Create\<close>
  (the object carries the owner and the spec) and returns no error; the second call
  returns no error and leaves the cluster, write log included, as the first call left
  it.  The second call reads the object back, finds it owned, and \<open>isEqual\<close> compares
  the encoding of the stored spec with the encoding of the same spec.
\<close>

theorem reconcileHTTPRoute_idempotent:
  assumes "httproutes c name = None"
  shows "reconcileHTTPRoute c name owner spec =
           (None, c \<lparr> httproutes := (httproutes c) (name \<mapsto>
                          \<lparr> hr_ObjectMeta = \<lparr> om_Namespace = fst name, om_Name = snd name,
                                              om_OwnerReferences = [owner] \<rparr>,
                            hr_Spec = spec \<rparr>),
                      writes := writes c @ [Create
                          \<lparr> hr_ObjectMeta = \<lparr> om_Namespace = fst name, om_Name = snd name,
                                              om_OwnerReferences = [owner] \<rparr>,
                            hr_Spec = spec \<rparr>] \<rparr>)
       \<and> reconcileHTTPRoute (snd (reconcileHTTPRoute c name owner spec)) name owner spec
           = (None, snd (reconcileHTTPRoute c name owner spec))"
proof -
  let ?obj = "\<lparr> hr_ObjectMeta = \<lparr> om_Namespace = fst name, om_Name = snd name,
                                    om_OwnerReferences = [owner] \<rparr>, hr_Spec = spec \<rparr>"
  let ?c1 = "c \<lparr> httproutes := (httproutes c) (name \<mapsto> ?obj), writes := writes c @ [Create ?obj] \<rparr>"
  have first: "reconcileHTTPRoute c name owner spec = (None, ?c1)"
    using assms
    by (simp add: reconcileHTTPRoute_def client_Get_HTTPRoute_def client_Create_def routeKey_def
        errors_IsNotFound_def)
  have stored: "httproutes ?c1 name = Some ?obj"
    by simp
  have "reconcileHTTPRoute ?c1 name owner spec = (None, ?c1)"
    unfolding reconcileHTTPRoute_def client_Get_HTTPRoute_def stored
    by (simp add: isEqual_refl_spec)
  with first show ?thesis by simp
qed

theorem reconcileHTTPRoute_idempotent_witness:
  "httproutes (ex_cluster (ex_ingress [] None) []) (''demo'', ''web-a-example-com'') = None
   \<and> writes (snd (reconcileHTTPRoute (ex_cluster (ex_ingress [] None) []) (''demo'', ''web-a-example-com'')
                    (ex_owner ''web'' ''uid-1'') (ex_spec [''a.example.com'']))) 
       = [Create (ex_route [ex_owner ''web'' ''uid-1''] (ex_spec [''a.example.com'']))]
   \<and> reconcileHTTPRoute
        (snd (reconcileHTTPRoute (ex_cluster (ex_ingress [] None) []) (''demo'', ''web-a-example-com'')
                (ex_owner ''web'' ''uid-1'') (ex_spec [''a.example.com''])))
        (''demo'', ''web-a-example-com'') (ex_owner ''web'' ''uid-1'') (ex_spec [''a.example.com''])
      = (None, snd (reconcileHTTPRoute (ex_cluster (ex_ingress [] None) []) (''demo'', ''web-a-example-com'')
                (ex_owner ''web'' ''uid-1'') (ex_spec [''a.example.com''])))"
proof -
  have absent: "httproutes (ex_cluster (ex_ingress [] None) []) (''demo'', ''web-a-example-com'') = None"
    by (simp add: ex_cluster_def)
  note both = reconcileHTTPRoute_idempotent
    [OF absent, of "ex_owner ''web'' ''uid-1''" "ex_spec [''a.example.com'']"]
  have log: "writes (snd (reconcileHTTPRoute (ex_cluster (ex_ingress [] None) []) (''demo'', ''web-a-example-com'')
                    (ex_owner ''web'' ''uid-1'') (ex_spec [''a.example.com''])))
       = [Create (ex_route [ex_owner ''web'' ''uid-1''] (ex_spec [''a.example.com'']))]"
    unfolding conjunct1 [OF both] by (simp add: ex_cluster_def ex_route_def)
  show ?thesis
    by (intro conjI absent log conjunct2 [OF both])
qed

text \<open>
  Claim C10.  \<open>isOwnedBy\<close> holds exactly when some owner reference of the object has
  the API version, kind and name of the given owner; the UID takes no part, so changing
  every UID of the object's references and of the owner does not change the answer.  A
  stored object that passes the test and whose spec differs from the desired one is
  updated in place, whatever the UIDs are.
\<close>

theorem isOwnedBy_ignores_UID:
  "(isOwnedBy metadata owner \<longleftrightarrow>
      (\<exists>reference \<in> set (om_OwnerReferences metadata).
          or_APIVersion reference = or_APIVersion owner
        \<and> or_Kind reference = or_Kind owner
        \<and> or_Name reference = or_Name owner))
   \<and> isOwnedBy (metadata \<lparr> om_OwnerReferences :=
                    map (\<lambda>reference. reference \<lparr> or_UID := uid reference \<rparr>) (om_OwnerReferences metadata) \<rparr>)
        (owner \<lparr> or_UID := u \<rparr>) = isOwnedBy metadata owner
   \<and> (httproutes c (routeKey stored) = Some stored
        \<and> isOwnedBy (hr_ObjectMeta stored) owner
        \<and> \<not> isEqual json_Marshal_HTTPRouteSpec (hr_Spec stored) spec
      \<longrightarrow> reconcileHTTPRoute c (routeKey stored) owner spec
            = (None, c \<lparr> httproutes := (httproutes c) (routeKey stored \<mapsto> stored \<lparr> hr_Spec := spec \<rparr>),
                         writes := writes c @ [Update (stored \<lparr> hr_Spec := spec \<rparr>)] \<rparr>))"
proof (intro conjI impI)
  show "isOwnedBy metadata owner \<longleftrightarrow>
      (\<exists>reference \<in> set (om_OwnerReferences metadata).
          or_APIVersion reference = or_APIVersion owner
        \<and> or_Kind reference = or_Kind owner
        \<and> or_Name reference = or_Name owner)"
    by (simp add: isOwnedBy_def isOwnedBy_loop_iff)
  show "isOwnedBy (metadata \<lparr> om_OwnerReferences :=
                    map (\<lambda>reference. reference \<lparr> or_UID := uid reference \<rparr>) (om_OwnerReferences metadata) \<rparr>)
        (owner \<lparr> or_UID := u \<rparr>) = isOwnedBy metadata owner"
    by (simp add: isOwnedBy_def isOwnedBy_loop_iff)
next
  assume a: "httproutes c (routeKey stored) = Some stored
        \<and> isOwnedBy (hr_ObjectMeta stored) owner
        \<and> \<not> isEqual json_Marshal_HTTPRouteSpec (hr_Spec stored) spec"
  have key: "routeKey (stored \<lparr> hr_Spec := spec \<rparr>) = routeKey stored"
    by (simp add: routeKey_def)
  show "reconcileHTTPRoute c (routeKey stored) owner spec
            = (None, c \<lparr> httproutes := (httproutes c) (routeKey stored \<mapsto> stored \<lparr> hr_Spec := spec \<rparr>),
                         writes := writes c @ [Update (stored \<lparr> hr_Spec := spec \<rparr>)] \<rparr>)"
    using a by (simp add: reconcileHTTPRoute_def client_Get_HTTPRoute_def client_Update_def key)
qed

theorem isOwnedBy_ignores_UID_witness:
  "isOwnedBy (hr_ObjectMeta (ex_route [ex_owner ''web'' ''uid-0''] (ex_spec [''a.example.com''])))
     (ex_owner ''web'' ''uid-1'')
   \<and> writes (snd (reconcileHTTPRoute
        (ex_store (ex_route [ex_owner ''web'' ''uid-0''] (ex_spec [''a.example.com''])))
        (''demo'', ''web-a-example-com'') (ex_owner ''web'' ''uid-1'') (ex_spec [''b.example.com''])))
     = [Update (ex_route [ex_owner ''web'' ''uid-0''] (ex_spec [''b.example.com'']))]"
  using isOwnedBy_ignores_UID
    [of "hr_ObjectMeta (ex_route [ex_owner ''web'' ''uid-0''] (ex_spec [''a.example.com'']))"
        "ex_owner ''web'' ''uid-1''" "\<lambda>_. ''uid-1''" "''uid-1''"
        "ex_store (ex_route [ex_owner ''web'' ''uid-0''] (ex_spec [''a.example.com'']))"
        "ex_route [ex_owner ''web'' ''uid-0''] (ex_spec [''a.example.com''])"
        "ex_spec [''b.example.com'']"]
  by (simp add: ex_store_def ex_route_def ex_owner_def ex_spec_def routeKey_def isEqual_def
      json_Marshal_HTTPRouteSpec_def json_HTTPRouteSpec_def omitempty_slice_def)

section \<open>Namespace accessibility of listeners\<close>

lemma isListenerAccessibleFromNamespace_iff:
  "isListenerAccessibleFromNamespace listener gatewayNamespace ingressNamespace \<longleftrightarrow>
     (declaredFrom listener = Some NamespacesFromAll
      \<or> ((declaredFrom listener = None \<or> declaredFrom listener = Some NamespacesFromSame)
          \<and> gatewayNamespace = ingressNamespace))"
  by (auto simp add: isListenerAccessibleFromNamespace_def declaredFrom_def split: option.splits)

lemma findMatchingGateways_listeners_accessible:
  "gw_Namespace gateway' = gw_Namespace gateway \<Longrightarrow> gw_Group gateway' = gw_Group gateway \<Longrightarrow>
   gw_Kind gateway' = gw_Kind gateway \<Longrightarrow> gw_Name gateway' = gw_Name gateway \<Longrightarrow>
   findMatchingGateways_listeners ingressNamespace hostname gateway'
       (filter (\<lambda>listener. isListenerAccessibleFromNamespace listener (gw_Namespace gateway) ingressNamespace) listeners) st
     = findMatchingGateways_listeners ingressNamespace hostname gateway listeners st"
  by (induction listeners arbitrary: st) (simp_all add: parentRefKey_def createParentRef_def)

lemma findMatchingGateways_gateways_accessible:
  "findMatchingGateways_gateways ingressNamespace hostname (accessibleListeners ingressNamespace gateways) st
     = findMatchingGateways_gateways ingressNamespace hostname gateways st"
  by (induction gateways arbitrary: st)
     (simp_all add: accessibleListeners_def findMatchingGateways_listeners_accessible)

lemma findCatchAllGateways_listeners_accessible:
  "gw_Namespace gateway' = gw_Namespace gateway \<Longrightarrow> gw_Group gateway' = gw_Group gateway \<Longrightarrow>
   gw_Kind gateway' = gw_Kind gateway \<Longrightarrow> gw_Name gateway' = gw_Name gateway \<Longrightarrow>
   findCatchAllGateways_listeners ingressNamespace gateway'
       (filter (\<lambda>listener. isListenerAccessibleFromNamespace listener (gw_Namespace gateway) ingressNamespace) listeners) acc
     = findCatchAllGateways_listeners ingressNamespace gateway listeners acc"
  by (induction listeners arbitrary: acc) (simp_all add: createParentRef_def)

lemma findCatchAllGateways_gateways_accessible:
  "findCatchAllGateways_gateways ingressNamespace (accessibleListeners ingressNamespace gateways) acc
     = findCatchAllGateways_gateways ingressNamespace gateways acc"
  by (induction gateways arbitrary: acc)
     (simp_all add: accessibleListeners_def findCatchAllGateways_listeners_accessible)

text \<open>
  Claim C6, as the code has it.  A listener is admitted exactly when the policy it
  declares is \<open>All\<close>, or the policy is \<open>Same\<close> or absent and the namespace of the
  Ingress is the namespace of the Gateway.  A listener with any other policy
  (\<open>Selector\<close>, \<open>None\<close>) is never admitted.  Rejected listeners take no part in the
  selection: \<open>findMatchingGateways\<close> and \<open>findCatchAllGateways\<close> return the same
  references when the rejected listeners are removed from the Gateways beforehand.
\<close>

theorem isListenerAccessibleFromNamespace_policy:
  "(isListenerAccessibleFromNamespace listener gatewayNamespace ingressNamespace \<longleftrightarrow>
     (declaredFrom listener = Some NamespacesFromAll
      \<or> ((declaredFrom listener = None \<or> declaredFrom listener = Some NamespacesFromSame)
          \<and> gatewayNamespace = ingressNamespace)))
   \<and> findMatchingGateways ingressNamespace hostname (accessibleListeners ingressNamespace gateways)
       = findMatchingGateways ingressNamespace hostname gateways
   \<and> findCatchAllGateways ingressNamespace (accessibleListeners ingressNamespace gateways)
       = findCatchAllGateways ingressNamespace gateways"
  by (simp add: isListenerAccessibleFromNamespace_iff findMatchingGateways_def
      findMatchingGateways_gateways_accessible findCatchAllGateways_def
      findCatchAllGateways_gateways_accessible)

theorem isListenerAccessibleFromNamespace_policy_witness:
  "isListenerAccessibleFromNamespace (ex_listener ''http'' None (Some NamespacesFromAll)) ''demo'' ''apps''
   \<and> isListenerAccessibleFromNamespace (ex_listener ''http'' None None) ''demo'' ''demo''
   \<and> \<not> isListenerAccessibleFromNamespace (ex_listener ''http'' None (Some NamespacesFromSame)) ''demo'' ''apps''
   \<and> findMatchingGateways ''apps'' ''a.example.com''
        [ex_gateway [ex_listener ''http'' None (Some NamespacesFromSame),
                     ex_listener ''https'' None (Some NamespacesFromAll)]]
      = findMatchingGateways ''apps'' ''a.example.com''
        [ex_gateway [ex_listener ''https'' None (Some NamespacesFromAll)]]"
  using isListenerAccessibleFromNamespace_policy
      [of "ex_listener ''http'' None (Some NamespacesFromAll)" "''demo''" "''apps''"
          "''a.example.com''"
          "[ex_gateway [ex_listener ''http'' None (Some NamespacesFromSame),
                     ex_listener ''https'' None (Some NamespacesFromAll)]]"]
    isListenerAccessibleFromNamespace_policy
      [of "ex_listener ''http'' None None" "''demo''" "''demo''" "[]" "[]"]
    isListenerAccessibleFromNamespace_policy
      [of "ex_listener ''http'' None (Some NamespacesFromSame)" "''demo''" "''apps''" "[]" "[]"]
  by (simp add: accessibleListeners_def ex_gateway_def ex_listener_def declaredFrom_def
      isListenerAccessibleFromNamespace_def)

text \<open>
  The claim as stated lets the namespaces decide for every policy other than \<open>All\<close>.
  A listener with policy \<open>Selector\<close> on a Gateway in the namespace of the Ingress is
  rejected by the code.
\<close>

theorem isListenerAccessibleFromNamespace_selector_counterexample:
  "isListenerAccessibleFromNamespace (ex_listener ''http'' None (Some NamespacesFromSelector)) ''demo'' ''demo''
     \<noteq> (declaredFrom (ex_listener ''http'' None (Some NamespacesFromSelector)) = Some NamespacesFromAll
        \<or> ''demo'' = ''demo'')"
  by (simp add: ex_listener_def isListenerAccessibleFromNamespace_def declaredFrom_def)

section \<open>The pass over the host names\<close>

lemma mapBackendRef_services:
  assumes "services c' = services c"
  shows "mapBackendRef c' namespace ref = mapBackendRef c namespace ref"
proof -
  have eq: "client_Get_Service c' = client_Get_Service c"
    by (rule ext) (simp add: client_Get_Service_def assms)
  show ?thesis unfolding mapBackendRef_def eq ..
qed

lemma mapBackendRef_error:
  assumes "mapBackendRef c namespace ref = Inl err"
  shows "err = ErrNotFound"
proof (cases "ib_Resource ref")
  case (Some resource)
  with assms show ?thesis by (simp add: mapBackendRef_def)
next
  case None
  note res = None
  show ?thesis
  proof (cases "ib_Service ref")
    case None
    with assms res show ?thesis by (simp add: mapBackendRef_def)
  next
    case (Some service)
    show ?thesis
    proof (cases "services c (namespace, isb_Name service)")
      case None
      with assms res Some show ?thesis
        by (simp add: mapBackendRef_def client_Get_Service_def Let_def split: if_splits)
    next
      case (Some svc)
      with assms res \<open>ib_Service ref = Some service\<close> show ?thesis
        by (simp add: mapBackendRef_def client_Get_Service_def Let_def split: if_splits)
    qed
  qed
qed

lemma mapBackendRef_missing_service:
  assumes "ib_Resource ref = None" and "ib_Service ref = Some service"
    and "sbp_Number (isb_Port service) = 0" and "sbp_Name (isb_Port service) \<noteq> []"
    and "services c (namespace, isb_Name service) = None"
  shows "mapBackendRef c namespace ref = Inl ErrNotFound"
  using assms by (simp add: mapBackendRef_def client_Get_Service_def)


lemma createHTTPRouteRules_paths_services:
  assumes "services c' = services c"
  shows "createHTTPRouteRules_paths c' namespace d paths result
     = createHTTPRouteRules_paths c namespace d paths result"
proof (induction paths arbitrary: result)
  case Nil
  show ?case by simp
next
  case (Cons path paths)
  show ?case
    by (cases "mapBackendRef c namespace (hip_Backend path)")
       (simp_all add: mapBackendRef_services [OF assms] Cons.IH)
qed

lemma createHTTPRouteRules_rules_services:
  assumes "services c' = services c"
  shows "createHTTPRouteRules_rules c' namespace d rules result
     = createHTTPRouteRules_rules c namespace d rules result"
proof (induction rules arbitrary: result)
  case Nil
  show ?case by simp
next
  case (Cons rule rules)
  show ?case
  proof (cases "ir_HTTP rule")
    case None
    with Cons.IH show ?thesis by (cases d) simp_all
  next
    case (Some http)
    then show ?thesis
      by (cases "createHTTPRouteRules_paths c namespace d (hirv_Paths http) result")
         (simp_all add: createHTTPRouteRules_paths_services [OF assms] Cons.IH)
  qed
qed

lemma createHTTPRouteRules_services:
  assumes "services c' = services c"
  shows "createHTTPRouteRules c' namespace rules d = createHTTPRouteRules c namespace rules d"
  by (simp add: createHTTPRouteRules_def createHTTPRouteRules_rules_services [OF assms])

lemma createHTTPRouteRules_paths_error:
  "createHTTPRouteRules_paths c namespace d paths result = Inl err \<Longrightarrow> err = ErrNotFound"
proof (induction paths arbitrary: result)
  case Nil
  then show ?case by simp
next
  case (Cons path paths)
  show ?case
  proof (cases "mapBackendRef c namespace (hip_Backend path)")
    case (Inl e)
    with Cons.prems have "err = e" by simp
    with Inl show ?thesis by (simp add: mapBackendRef_error)
  next
    case (Inr ref)
    with Cons.prems Cons.IH show ?thesis by simp
  qed
qed

lemma createHTTPRouteRules_paths_fails:
  assumes "mapBackendRef c namespace (hip_Backend failing) = Inl ErrNotFound"
  shows "failing \<in> set paths \<Longrightarrow>
   createHTTPRouteRules_paths c namespace d paths result = Inl ErrNotFound"
proof (induction paths arbitrary: result)
  case Nil
  then show ?case by simp
next
  case (Cons path paths)
  show ?case
  proof (cases "mapBackendRef c namespace (hip_Backend path)")
    case (Inl e)
    then have "e = ErrNotFound" by (rule mapBackendRef_error)
    with Inl show ?thesis by simp
  next
    case (Inr ref)
    with assms have "failing \<noteq> path" by auto
    with Cons.prems have "failing \<in> set paths" by simp
    with Inr Cons.IH show ?thesis by simp
  qed
qed

lemma createHTTPRouteRules_rules_error:
  "createHTTPRouteRules_rules c namespace d rules result = Inl err \<Longrightarrow> err = ErrNotFound"
proof (induction rules arbitrary: result)
  case Nil
  then show ?case by simp
next
  case (Cons rule rules)
  show ?case
  proof (cases "ir_HTTP rule")
    case None
    with Cons.prems Cons.IH show ?thesis by (cases d) simp_all
  next
    case (Some http)
    show ?thesis
    proof (cases "createHTTPRouteRules_paths c namespace d (hirv_Paths http) result")
      case (Inl e)
      then have "e = ErrNotFound" by (rule createHTTPRouteRules_paths_error)
      with Inl Some Cons.prems show ?thesis by simp
    next
      case (Inr result')
      with Some Cons.prems Cons.IH show ?thesis by simp
    qed
  qed
qed

lemma createHTTPRouteRules_rules_fails:
  assumes "mapBackendRef c namespace (hip_Backend failing) = Inl ErrNotFound"
    and "ir_HTTP bad = Some http" and "failing \<in> set (hirv_Paths http)"
  shows "bad \<in> set rules \<Longrightarrow>
   createHTTPRouteRules_rules c namespace d rules result = Inl ErrNotFound"
proof (induction rules arbitrary: result)
  case Nil
  then show ?case by simp
next
  case (Cons rule rules)
  show ?case
  proof (cases "rule = bad")
    case True
    have "createHTTPRouteRules_paths c namespace d (hirv_Paths http) result = Inl ErrNotFound"
      using assms(1,3) by (rule createHTTPRouteRules_paths_fails)
    with True assms(2) show ?thesis by simp
  next
    case False
    with Cons.prems have rest: "bad \<in> set rules" by simp
    show ?thesis
    proof (cases "ir_HTTP rule")
      case None
      with rest Cons.IH show ?thesis by (cases d) simp_all
    next
      case (Some h)
      show ?thesis
      proof (cases "createHTTPRouteRules_paths c namespace d (hirv_Paths h) result")
        case (Inl e)
        then have "e = ErrNotFound" by (rule createHTTPRouteRules_paths_error)
        with Inl Some show ?thesis by simp
      next
        case (Inr result')
        with Some rest Cons.IH show ?thesis by simp
      qed
    qed
  qed
qed


lemma reconcileHTTPRoute_services:
  "services (snd (reconcileHTTPRoute c name owner spec)) = services c"
proof (cases "httproutes c name")
  case None
  then show ?thesis
    by (simp add: reconcileHTTPRoute_def client_Get_HTTPRoute_def client_Create_def routeKey_def
        errors_IsNotFound_def)
next
  case (Some stored)
  then show ?thesis
    by (cases "httproutes c (routeKey (stored \<lparr> hr_Spec := spec \<rparr>))")
       (simp_all add: reconcileHTTPRoute_def client_Get_HTTPRoute_def client_Update_def)
qed

lemma Reconcile_hostnames_services:
  "services (snd (Reconcile_hostnames req ingress d gateways owner hostnames c)) = services c"
proof (induction hostnames arbitrary: c)
  case Nil
  then show ?case by simp
next
  case (Cons hostname hostnames)
  let ?made = "createHTTPRouteRules c (fst req)
             (filter (\<lambda>rule. ir_Host rule = hostname) (is_Rules (ing_Spec ingress))) d"
  show ?case
  proof (cases ?made)
    case (Inl err)
    then show ?thesis by simp
  next
    case (Inr rules)
    let ?call = "reconcileHTTPRoute c (fst req, generateHTTPRouteName (snd req) hostname) owner
                   \<lparr> rs_ParentRefs = findMatchingGateways (fst req) hostname gateways,
                     rs_Hostnames = [hostname], rs_Rules = rules \<rparr>"
    obtain e c' where call: "?call = (e, c')"
      by (cases ?call) auto
    have "services (snd ?call) = services c"
      by (rule reconcileHTTPRoute_services)
    with call have c': "services c' = services c" by simp
    show ?thesis
      using Inr call c' Cons.IH [of c] Cons.IH [of c']
      by (cases e) simp_all
  qed
qed

lemma Reconcile_hostnames_append:
  "Reconcile_hostnames req ingress d gateways owner (earlier @ later) c =
     (case Reconcile_hostnames req ingress d gateways owner earlier c of
        (Some err, c') \<Rightarrow> (Some err, c')
      | (None, c') \<Rightarrow> Reconcile_hostnames req ingress d gateways owner later c')"
proof (induction earlier arbitrary: c)
  case Nil
  show ?case by simp
next
  case (Cons hostname earlier)
  let ?made = "createHTTPRouteRules c (fst req)
             (filter (\<lambda>rule. ir_Host rule = hostname) (is_Rules (ing_Spec ingress))) d"
  show ?case
  proof (cases ?made)
    case (Inl err)
    then show ?thesis by simp
  next
    case (Inr rules)
    let ?call = "reconcileHTTPRoute c (fst req, generateHTTPRouteName (snd req) hostname) owner
                   \<lparr> rs_ParentRefs = findMatchingGateways (fst req) hostname gateways,
                     rs_Hostnames = [hostname], rs_Rules = rules \<rparr>"
    obtain e c' where call: "?call = (e, c')"
      by (cases ?call) auto
    show ?thesis
      using Inr call Cons.IH [of c] Cons.IH [of c']
      by (cases e) simp_all
  qed
qed

lemma Reconcile_hostnames_fails:
  assumes "createHTTPRouteRules c (fst req)
             (filter (\<lambda>rule. ir_Host rule = hostname) (is_Rules (ing_Spec ingress))) d = Inl err"
  shows "Reconcile_hostnames req ingress d gateways owner (hostname # later) c = (Some err, c)"
  using assms by simp

text \<open>
  Claim C7, as the code has it.  Let a rule of some host have a path whose backend
  names a port of a Service that is not in the cluster.  Then the pass ends with an
  error, and the cluster it leaves is the one the loop had reached after the hosts
  that come before this host: no route is written for this host or a later one, and
  the routes written for the earlier hosts stay.  If the earlier hosts went through
  without an error, the error returned is the \<open>ErrNotFound\<close> of the Service lookup.
\<close>

theorem Reconcile_aborts_on_missing_service:
  assumes ing: "ingresses c req = Some ingress"
    and gws: "gatewayList c \<noteq> []"
    and dflt: "map_option (mapBackendRef c (fst req)) (is_DefaultBackend (ing_Spec ingress))
                 = map_option Inr defaultBackendRef"
    and hosts: "extractHostnames (is_Rules (ing_Spec ingress)) = earlier @ hostname # later"
    and rule: "rule \<in> set (is_Rules (ing_Spec ingress))" "ir_Host rule = hostname"
      "ir_HTTP rule = Some http"
    and path: "path \<in> set (hirv_Paths http)" "ib_Resource (hip_Backend path) = None"
      "ib_Service (hip_Backend path) = Some service" "sbp_Number (isb_Port service) = 0"
      "sbp_Name (isb_Port service) \<noteq> []"
    and missing: "services c (fst req, isb_Name service) = None"
  shows "Reconcile r c req =
           (case Reconcile_hostnames req ingress defaultBackendRef (gatewayList c)
                   (createOwnerReference ingress) earlier c of
              (Some err, c') \<Rightarrow> (Some err, c')
            | (None, c') \<Rightarrow> (Some ErrNotFound, c'))"
proof -
  let ?loop = "Reconcile_hostnames req ingress defaultBackendRef (gatewayList c)
                 (createOwnerReference ingress)"
  have mapped: "(case is_DefaultBackend (ing_Spec ingress) of
                            None \<Rightarrow> Inr None
                          | Some backend \<Rightarrow>
                              (case mapBackendRef c (fst req) backend of
                                 Inl err \<Rightarrow> Inl err
                               | Inr backendRef \<Rightarrow> Inr (Some backendRef))) = Inr defaultBackendRef"
    using dflt by (cases "is_DefaultBackend (ing_Spec ingress)"; cases defaultBackendRef) auto
  have top: "Reconcile r c req = ?loop (earlier @ hostname # later) c"
    using gws by (simp add: Reconcile_def client_Get_Ingress_def ing Let_def mapped hosts)
  obtain e c' where pre: "?loop earlier c = (e, c')"
    by (cases "?loop earlier c") auto
  have "services (snd (?loop earlier c)) = services c"
    by (rule Reconcile_hostnames_services)
  with pre have same: "services c' = services c" by simp
  have "mapBackendRef c (fst req) (hip_Backend path) = Inl ErrNotFound"
    using path(2-5) missing by (rule mapBackendRef_missing_service)
  moreover have "rule \<in> set (filter (\<lambda>rule. ir_Host rule = hostname) (is_Rules (ing_Spec ingress)))"
    using rule(1,2) by simp
  ultimately have "createHTTPRouteRules c (fst req)
      (filter (\<lambda>rule. ir_Host rule = hostname) (is_Rules (ing_Spec ingress))) defaultBackendRef
        = Inl ErrNotFound"
    unfolding createHTTPRouteRules_def
    using rule(3) path(1) by (intro createHTTPRouteRules_rules_fails)
  then have "createHTTPRouteRules c' (fst req)
      (filter (\<lambda>rule. ir_Host rule = hostname) (is_Rules (ing_Spec ingress))) defaultBackendRef
        = Inl ErrNotFound"
    by (simp add: createHTTPRouteRules_services [OF same])
  then have "?loop (hostname # later) c' = (Some ErrNotFound, c')"
    by (rule Reconcile_hostnames_fails)
  with pre top show ?thesis
    by (cases e) (simp_all add: Reconcile_hostnames_append)
qed

theorem Reconcile_aborts_on_missing_service_witness:
  "extractHostnames (is_Rules (ing_Spec ex_missing_service)) = [''a.example.com'', ''b.example.com'']
   \<and> services (ex_cluster ex_missing_service ex_catchall_gateways) (''demo'', ''b'') = None
   \<and> fst (Reconcile \<lparr> RequireHostname = False \<rparr>
             (ex_cluster ex_missing_service ex_catchall_gateways) (''demo'', ''web'')) = Some ErrNotFound
   \<and> snd (Reconcile \<lparr> RequireHostname = False \<rparr>
             (ex_cluster ex_missing_service ex_catchall_gateways) (''demo'', ''web''))
       = snd (Reconcile_hostnames (''demo'', ''web'') ex_missing_service None ex_catchall_gateways
                (createOwnerReference ex_missing_service) [''a.example.com'']
                (ex_cluster ex_missing_service ex_catchall_gateways))"
proof -
  let ?c = "ex_cluster ex_missing_service ex_catchall_gateways"
  let ?path = "ex_path ''/'' (Some PathTypePrefix) (ex_named_backend ''b'' ''http'')"
  let ?service = "\<lparr> isb_Name = ''b'', isb_Port = \<lparr> sbp_Name = ''http'', sbp_Number = 0 \<rparr> \<rparr>"
  have ing: "ingresses ?c (''demo'', ''web'') = Some ex_missing_service"
    by (simp add: ex_cluster_def)
  have gws: "gatewayList ?c \<noteq> []"
    by (simp add: ex_cluster_def ex_catchall_gateways_def)
  have dflt: "map_option (mapBackendRef ?c (fst (''demo'', ''web''))) (is_DefaultBackend (ing_Spec ex_missing_service))
                = map_option Inr None"
    by (simp add: ex_missing_service_def ex_ingress_def)
  have hosts: "extractHostnames (is_Rules (ing_Spec ex_missing_service))
                 = [''a.example.com''] @ ''b.example.com'' # []"
    by (simp add: ex_missing_service_def ex_ingress_def ex_rule_def extractHostnames_def)
  have rule: "ex_rule ''b.example.com'' [?path] \<in> set (is_Rules (ing_Spec ex_missing_service))"
    "ir_Host (ex_rule ''b.example.com'' [?path]) = ''b.example.com''"
    "ir_HTTP (ex_rule ''b.example.com'' [?path]) = Some \<lparr> hirv_Paths = [?path] \<rparr>"
    by (simp_all add: ex_missing_service_def ex_ingress_def ex_rule_def)
  have path: "?path \<in> set (hirv_Paths \<lparr> hirv_Paths = [?path] \<rparr>)"
    "ib_Resource (hip_Backend ?path) = None"
    "ib_Service (hip_Backend ?path) = Some ?service"
    "sbp_Number (isb_Port ?service) = 0"
    "sbp_Name (isb_Port ?service) \<noteq> []"
    by (simp_all add: ex_path_def ex_named_backend_def)
  have missing: "services ?c (fst (''demo'', ''web''), isb_Name ?service) = None"
    by (simp add: ex_cluster_def)
  note pass = Reconcile_aborts_on_missing_service
    [OF ing gws dflt hosts rule path missing, of "\<lparr> RequireHostname = False \<rparr>"]
  have earlier: "fst (Reconcile_hostnames (''demo'', ''web'') ex_missing_service None ex_catchall_gateways
                (createOwnerReference ex_missing_service) [''a.example.com''] ?c) = None"
    by code_simp
  have gl: "gatewayList ?c = ex_catchall_gateways"
    by (simp add: ex_cluster_def)
  show ?thesis
    using pass earlier hosts missing unfolding gl
    by (cases "Reconcile_hostnames (''demo'', ''web'') ex_missing_service None ex_catchall_gateways
                (createOwnerReference ex_missing_service) [''a.example.com''] ?c") auto
qed

text \<open>
  The claim as stated has no write of the pass survive.  In the cluster with the
  Ingress \<open>ex_missing_service\<close> and no routes, the pass returns the error of the lookup
  for the second host, and the route of the first host has been created and is still
  stored.
\<close>

theorem Reconcile_keeps_earlier_routes_counterexample:
  "fst (Reconcile \<lparr> RequireHostname = False \<rparr>
          (ex_cluster ex_missing_service ex_catchall_gateways) (''demo'', ''web'')) = Some ErrNotFound
   \<and> map_option (\<lambda>obj. rs_Hostnames (hr_Spec obj))
        (httproutes (snd (Reconcile \<lparr> RequireHostname = False \<rparr>
                            (ex_cluster ex_missing_service ex_catchall_gateways) (''demo'', ''web'')))
           (''demo'', ''web-a-example-com'')) = Some [''a.example.com'']
   \<and> length (writes (snd (Reconcile \<lparr> RequireHostname = False \<rparr>
                            (ex_cluster ex_missing_service ex_catchall_gateways) (''demo'', ''web'')))) = 1"
  by code_simp

section \<open>The order of the rules of a route\<close>

lemma strings_Compare_flip: "strings_Compare b a = - strings_Compare a b"
  by (induction a b rule: strings_Compare.induct) auto

lemma strings_Compare_eq0: "strings_Compare a b = 0 \<Longrightarrow> a = b"
  by (induction a b rule: strings_Compare.induct) (auto split: if_splits)

lemma strings_Compare_trans:
  "strings_Compare a b \<le> 0 \<Longrightarrow> strings_Compare b c \<le> 0 \<Longrightarrow> strings_Compare a c \<le> 0"
proof (induction a b arbitrary: c rule: strings_Compare.induct)
  case 1
  then show ?case by simp
next
  case (2 y ys)
  then show ?case by (cases c) simp_all
next
  case (3 x xs)
  then show ?case by simp
next
  case (4 x xs y ys)
  show ?case
  proof (cases c)
    case Nil
    with "4.prems" show ?thesis by simp
  next
    case (Cons z zs)
    with "4.prems" "4.IH" [of zs] show ?thesis
      by (auto split: if_splits)
  qed
qed


lemma strings_Compare_strict_trans:
  assumes "strings_Compare a b < 0" and "strings_Compare b c \<le> 0"
  shows "strings_Compare a c < 0"
proof (rule ccontr)
  assume "\<not> strings_Compare a c < 0"
  then have "strings_Compare c a \<le> 0"
    using strings_Compare_flip [of c a] by simp
  with assms(2) have "strings_Compare b a \<le> 0"
    by (rule strings_Compare_trans)
  with assms(1) show False
    using strings_Compare_flip [of b a] by simp
qed

lemma compareHTTPRouteRule_keys:
  "compareHTTPRouteRule a b =
     (if strings_Compare (firstPathValue a) (firstPathValue b) \<noteq> 0
      then strings_Compare (firstPathValue a) (firstPathValue b)
      else strings_Compare (firstBackendName a) (firstBackendName b))"
  unfolding compareHTTPRouteRule_def firstPathValue_def firstBackendName_def Let_def ..

lemma compareHTTPRouteRule_total:
  "\<not> compareHTTPRouteRule a b < 0 \<Longrightarrow> compareHTTPRouteRule b a \<le> 0"
  using strings_Compare_flip [of "firstPathValue b" "firstPathValue a"]
    strings_Compare_flip [of "firstBackendName b" "firstBackendName a"]
  by (simp add: compareHTTPRouteRule_keys split: if_splits)

lemma compareHTTPRouteRule_trans:
  assumes ab: "compareHTTPRouteRule a b \<le> 0" and bc: "compareHTTPRouteRule b c \<le> 0"
  shows "compareHTTPRouteRule a c \<le> 0"
proof -
  let ?p = "\<lambda>x y. strings_Compare (firstPathValue x) (firstPathValue y)"
  let ?n = "\<lambda>x y. strings_Compare (firstBackendName x) (firstBackendName y)"
  have pab: "?p a b \<le> 0" and pbc: "?p b c \<le> 0"
    using ab bc by (simp_all add: compareHTTPRouteRule_keys split: if_splits)
  show ?thesis
  proof (cases "?p a b = 0 \<and> ?p b c = 0")
    case True
    then have "firstPathValue a = firstPathValue b" "firstPathValue b = firstPathValue c"
      by (auto dest: strings_Compare_eq0)
    moreover from True ab bc have "?n a b \<le> 0" "?n b c \<le> 0"
      by (simp_all add: compareHTTPRouteRule_keys)
    then have "?n a c \<le> 0" by (rule strings_Compare_trans)
    ultimately show ?thesis
      using True by (simp add: compareHTTPRouteRule_keys)
  next
    case False
    then consider "?p a b < 0" | "?p b c < 0"
      using pab pbc by fastforce
    then have "?p a c < 0"
    proof cases
      case 1
      then show ?thesis using pbc by (rule strings_Compare_strict_trans)
    next
      case 2
      show ?thesis
      proof (rule ccontr)
        assume "\<not> ?p a c < 0"
        then have "?p c a \<le> 0"
          using strings_Compare_flip [of "firstPathValue c" "firstPathValue a"] by simp
        then have "?p c b \<le> 0" using pab by (rule strings_Compare_trans)
        with 2 show False
          using strings_Compare_flip [of "firstPathValue c" "firstPathValue b"] by simp
      qed
    qed
    then show ?thesis by (simp add: compareHTTPRouteRule_keys)
  qed
qed

lemma set_slices_insert: "set (slices_insert cmp x ys) = insert x (set ys)"
  by (induction ys) auto

lemma sorted_slices_insert:
  assumes trans: "\<And>a b c. cmp a b \<le> 0 \<Longrightarrow> cmp b c \<le> 0 \<Longrightarrow> cmp a c \<le> 0"
    and total: "\<And>a b. \<not> cmp a b < 0 \<Longrightarrow> cmp b a \<le> 0"
  shows "sorted_wrt (\<lambda>a b. cmp a b \<le> 0) ys \<Longrightarrow>
         sorted_wrt (\<lambda>a b. cmp a b \<le> (0::int)) (slices_insert cmp x ys)"
proof (induction ys)
  case Nil
  show ?case by simp
next
  case (Cons y ys)
  show ?case
  proof (cases "cmp x y < 0")
    case True
    then have xy: "cmp x y \<le> 0" by simp
    have "cmp x z \<le> 0" if "z \<in> set ys" for z
      using Cons.prems that trans [OF xy, of z] by simp
    with True xy Cons.prems show ?thesis by simp
  next
    case False
    then have "cmp y x \<le> 0" by (rule total)
    with False Cons show ?thesis
      by (auto simp add: set_slices_insert)
  qed
qed

lemma sorted_foldl_slices_insert:
  assumes trans: "\<And>a b c. cmp a b \<le> 0 \<Longrightarrow> cmp b c \<le> 0 \<Longrightarrow> cmp a c \<le> 0"
    and total: "\<And>a b. \<not> cmp a b < 0 \<Longrightarrow> cmp b a \<le> 0"
  shows "sorted_wrt (\<lambda>a b. cmp a b \<le> 0) acc \<Longrightarrow>
         sorted_wrt (\<lambda>a b. cmp a b \<le> (0::int)) (foldl (\<lambda>sorted x. slices_insert cmp x sorted) acc xs)"
proof (induction xs arbitrary: acc)
  case Nil
  then show ?case by simp
next
  case (Cons x xs)
  have "sorted_wrt (\<lambda>a b. cmp a b \<le> 0) (slices_insert cmp x acc)"
  proof (rule sorted_slices_insert)
    show "\<And>a b c. cmp a b \<le> 0 \<Longrightarrow> cmp b c \<le> 0 \<Longrightarrow> cmp a c \<le> 0"
      by (rule trans)
    show "\<And>a b. \<not> cmp a b < 0 \<Longrightarrow> cmp b a \<le> 0"
      by (rule total)
    show "sorted_wrt (\<lambda>a b. cmp a b \<le> 0) acc"
      by (rule Cons.prems)
  qed
  then show ?case using Cons.IH by simp
qed

lemma slices_SortStableFunc_rules_sorted:
  "sorted_wrt (\<lambda>a b. compareHTTPRouteRule a b \<le> 0) (slices_SortStableFunc xs compareHTTPRouteRule)"
  unfolding slices_SortStableFunc_def
proof (rule sorted_foldl_slices_insert)
  show "\<And>a b c. compareHTTPRouteRule a b \<le> 0 \<Longrightarrow> compareHTTPRouteRule b c \<le> 0
          \<Longrightarrow> compareHTTPRouteRule a c \<le> 0"
    by (rule compareHTTPRouteRule_trans)
  show "\<And>a b. \<not> compareHTTPRouteRule a b < 0 \<Longrightarrow> compareHTTPRouteRule b a \<le> 0"
    by (rule compareHTTPRouteRule_total)
  show "sorted_wrt (\<lambda>a b. compareHTTPRouteRule a b \<le> 0) []"
    by simp
qed

lemma strings_Compare_refl: "strings_Compare a a = 0"
  using strings_Compare_flip [of a a] by simp

lemma compareHTTPRouteRule_flip: "compareHTTPRouteRule b a = - compareHTTPRouteRule a b"
  using strings_Compare_flip [of "firstPathValue b" "firstPathValue a"]
    strings_Compare_flip [of "firstBackendName b" "firstBackendName a"]
  by (simp add: compareHTTPRouteRule_keys)

lemma compareHTTPRouteRule_eq0: "compareHTTPRouteRule a b = 0 \<longleftrightarrow> sortKey a = sortKey b"
  by (auto simp add: compareHTTPRouteRule_keys sortKey_def strings_Compare_refl
      dest: strings_Compare_eq0 split: if_splits)

lemma compareHTTPRouteRule_strict_trans:
  assumes "compareHTTPRouteRule a b < 0" and "compareHTTPRouteRule b c \<le> 0"
  shows "compareHTTPRouteRule a c < 0"
proof (rule ccontr)
  assume "\<not> compareHTTPRouteRule a c < 0"
  then have "compareHTTPRouteRule c a \<le> 0"
    by (rule compareHTTPRouteRule_total)
  with assms(2) have "compareHTTPRouteRule b a \<le> 0"
    by (rule compareHTTPRouteRule_trans)
  with assms(1) show False
    using compareHTTPRouteRule_flip [of b a] by simp
qed

lemma sorted_slices_insert_rules:
  "sorted_wrt (\<lambda>a b. compareHTTPRouteRule a b \<le> 0) ys \<Longrightarrow>
   sorted_wrt (\<lambda>a b. compareHTTPRouteRule a b \<le> 0) (slices_insert compareHTTPRouteRule x ys)"
proof (rule sorted_slices_insert)
  show "\<And>a b c. compareHTTPRouteRule a b \<le> 0 \<Longrightarrow> compareHTTPRouteRule b c \<le> 0
          \<Longrightarrow> compareHTTPRouteRule a c \<le> 0"
    by (rule compareHTTPRouteRule_trans)
  show "\<And>a b. \<not> compareHTTPRouteRule a b < 0 \<Longrightarrow> compareHTTPRouteRule b a \<le> 0"
    by (rule compareHTTPRouteRule_total)
qed

lemma stable_slices_insert:
  assumes "sorted_wrt (\<lambda>a b. compareHTTPRouteRule a b \<le> 0) ys"
  shows "filter (\<lambda>r. sortKey r = k) (slices_insert compareHTTPRouteRule x ys)
           = filter (\<lambda>r. sortKey r = k) ys @ filter (\<lambda>r. sortKey r = k) [x]"
  using assms
proof (induction ys)
  case Nil
  show ?case by simp
next
  case (Cons y ys)
  show ?case
  proof (cases "compareHTTPRouteRule x y < 0")
    case True
    have later: "sortKey z \<noteq> sortKey x" if "z \<in> set (y # ys)" for z
    proof -
      have "compareHTTPRouteRule y z \<le> 0"
      proof (cases "z = y")
        case True
        then show ?thesis using compareHTTPRouteRule_flip [of y y] by simp
      next
        case False
        with that Cons.prems show ?thesis by auto
      qed
      with True have "compareHTTPRouteRule x z < 0"
        by (rule compareHTTPRouteRule_strict_trans)
      then have "compareHTTPRouteRule x z \<noteq> 0" by simp
      then show ?thesis by (auto simp add: compareHTTPRouteRule_eq0)
    qed
    show ?thesis
    proof (cases "sortKey x = k")
      case same: True
      have "filter (\<lambda>r. sortKey r = k) (y # ys) = []"
        using later same by (auto simp add: filter_empty_conv)
      with True same show ?thesis by simp
    next
      case False
      with True show ?thesis by simp
    qed
  next
    case False
    from Cons.prems have "sorted_wrt (\<lambda>a b. compareHTTPRouteRule a b \<le> 0) ys" by simp
    with False Cons.IH show ?thesis by simp
  qed
qed

lemma sorted_stable_foldl:
  assumes "sorted_wrt (\<lambda>a b. compareHTTPRouteRule a b \<le> 0) acc"
  shows "sorted_wrt (\<lambda>a b. compareHTTPRouteRule a b \<le> 0)
           (foldl (\<lambda>sorted x. slices_insert compareHTTPRouteRule x sorted) acc xs)
       \<and> filter (\<lambda>r. sortKey r = k) (foldl (\<lambda>sorted x. slices_insert compareHTTPRouteRule x sorted) acc xs)
           = filter (\<lambda>r. sortKey r = k) acc @ filter (\<lambda>r. sortKey r = k) xs"
  using assms
proof (induction xs arbitrary: acc)
  case Nil
  then show ?case by simp
next
  case (Cons x xs)
  have s: "sorted_wrt (\<lambda>a b. compareHTTPRouteRule a b \<le> 0) (slices_insert compareHTTPRouteRule x acc)"
    using Cons.prems by (rule sorted_slices_insert_rules)
  have f: "filter (\<lambda>r. sortKey r = k) (slices_insert compareHTTPRouteRule x acc)
           = filter (\<lambda>r. sortKey r = k) acc @ filter (\<lambda>r. sortKey r = k) [x]"
    using Cons.prems by (rule stable_slices_insert)
  from Cons.IH [OF s] f show ?case by simp
qed

lemma slices_SortStableFunc_rules_stable:
  "filter (\<lambda>r. sortKey r = k) (slices_SortStableFunc xs compareHTTPRouteRule)
     = filter (\<lambda>r. sortKey r = k) xs"
  using sorted_stable_foldl [where acc = "[]" and k = k and xs = xs]
  by (simp add: slices_SortStableFunc_def)

lemma sorted_stable_unique:
  assumes "sorted_wrt (\<lambda>a b. compareHTTPRouteRule a b \<le> 0) xs"
    and "sorted_wrt (\<lambda>a b. compareHTTPRouteRule a b \<le> 0) ys"
    and "\<And>k. filter (\<lambda>r. sortKey r = k) xs = filter (\<lambda>r. sortKey r = k) ys"
  shows "xs = ys"
  using assms
proof (induction xs arbitrary: ys)
  case Nil
  show ?case
  proof (cases ys)
    case Nil
    then show ?thesis by simp
  next
    case (Cons b bs)
    with Nil.prems(3) [of "sortKey b"] show ?thesis by simp
  qed
next
  case (Cons a xs)
  from Cons.prems(3) [of "sortKey a"] obtain b bs where ys: "ys = b # bs"
    by (cases ys) auto
  have "sortKey b = sortKey a"
  proof (rule ccontr)
    assume neq: "sortKey b \<noteq> sortKey a"
    have "b \<in> set (filter (\<lambda>r. sortKey r = sortKey b) (a # xs))"
      unfolding Cons.prems(3) [of "sortKey b"] using ys by simp
    with neq have "b \<in> set xs" by auto
    with Cons.prems(1) have ab: "compareHTTPRouteRule a b \<le> 0" by simp
    have "a \<in> set (filter (\<lambda>r. sortKey r = sortKey a) ys)"
      unfolding Cons.prems(3) [of "sortKey a", symmetric] by simp
    with neq ys have "a \<in> set bs" by auto
    with Cons.prems(2) ys have "compareHTTPRouteRule b a \<le> 0" by simp
    with ab have "compareHTTPRouteRule a b = 0"
      using compareHTTPRouteRule_flip [of b a] by simp
    with neq show False by (simp add: compareHTTPRouteRule_eq0)
  qed
  with Cons.prems(3) [of "sortKey a"] ys have head: "b = a" by simp
  have tails: "filter (\<lambda>r. sortKey r = k) xs = filter (\<lambda>r. sortKey r = k) bs" for k
    using Cons.prems(3) [of k] ys head by (cases "sortKey a = k") simp_all
  from Cons.prems(1) have "sorted_wrt (\<lambda>a b. compareHTTPRouteRule a b \<le> 0) xs" by simp
  moreover from Cons.prems(2) ys have "sorted_wrt (\<lambda>a b. compareHTTPRouteRule a b \<le> 0) bs" by simp
  ultimately have "xs = bs" using tails by (rule Cons.IH)
  with ys head show ?case by simp
qed


lemma createHTTPRouteRules_paths_declared:
  "createHTTPRouteRules_paths c namespace d paths result = Inr made \<Longrightarrow>
   made = result @ map (\<lambda>path. \<lparr> rr_Matches = [\<lparr> rm_Path = Some (createPathMatch path) \<rparr>],
                                  rr_BackendRefs = pathBackendRefs c namespace d path \<rparr>) paths"
proof (induction paths arbitrary: result)
  case Nil
  then show ?case by simp
next
  case (Cons path paths)
  show ?case
  proof (cases "mapBackendRef c namespace (hip_Backend path)")
    case (Inl err)
    with Cons.prems show ?thesis by simp
  next
    case (Inr ref)
    have refs: "pathBackendRefs c namespace d path
                  = (case d of None \<Rightarrow> [ref]
                     | Some b \<Rightarrow> if \<not> containsBackendRef [ref] b then [ref] @ [b] else [ref])"
      using Inr by (cases d) (simp_all add: pathBackendRefs_def)
    from Cons.prems Inr
    have "createHTTPRouteRules_paths c namespace d paths
            (result @ [\<lparr> rr_Matches = [\<lparr> rm_Path = Some (createPathMatch path) \<rparr>],
                          rr_BackendRefs = pathBackendRefs c namespace d path \<rparr>]) = Inr made"
      by (simp add: refs)
    then show ?thesis using Cons.IH by fastforce
  qed
qed

lemma createHTTPRouteRules_rules_declared:
  "createHTTPRouteRules_rules c namespace d rules result = Inr made \<Longrightarrow>
   made = result @ declaredRules (pathBackendRefs c namespace d) (defaultBackendRule d) rules"
proof (induction rules arbitrary: result)
  case Nil
  then show ?case by (simp add: declaredRules_def)
next
  case (Cons rule rules)
  show ?case
  proof (cases "ir_HTTP rule")
    case None
    with Cons.prems Cons.IH show ?thesis
      by (cases d) (fastforce simp add: declaredRules_def defaultBackendRule_def)+
  next
    case (Some http)
    show ?thesis
    proof (cases "createHTTPRouteRules_paths c namespace d (hirv_Paths http) result")
      case (Inl err)
      with Some Cons.prems show ?thesis by simp
    next
      case (Inr result')
      with Some Cons.prems
      have "made = result' @ declaredRules (pathBackendRefs c namespace d) (defaultBackendRule d) rules"
        using Cons.IH by simp
      moreover note createHTTPRouteRules_paths_declared [OF Inr]
      ultimately show ?thesis using Some by (simp add: declaredRules_def)
    qed
  qed
qed

lemma mapToHTTPRouteRules_paths_declared:
  "mapToHTTPRouteRules_paths c namespace paths result = Inr made \<Longrightarrow>
   made = result @ map (\<lambda>path. \<lparr> rr_Matches = [\<lparr> rm_Path = Some (createPathMatch path) \<rparr>],
                                  rr_BackendRefs = pathBackendRefs_ptr c namespace path \<rparr>) paths"
proof (induction paths arbitrary: result)
  case Nil
  then show ?case by simp
next
  case (Cons path paths)
  show ?case
  proof (cases "mapBackendRef_ptr c namespace (hip_Backend path)")
    case (Inl err)
    with Cons.prems show ?thesis by simp
  next
    case (Inr ptr)
    show ?thesis
    proof (cases ptr)
      case None
      with Inr Cons.prems show ?thesis by simp
    next
      case (Some backendRef)
      with Inr have refs: "pathBackendRefs_ptr c namespace path = [backendRef]"
        by (simp add: pathBackendRefs_ptr_def)
      from Cons.prems Inr Some
      have "mapToHTTPRouteRules_paths c namespace paths
              (result @ [\<lparr> rr_Matches = [\<lparr> rm_Path = Some (createPathMatch path) \<rparr>],
                            rr_BackendRefs = pathBackendRefs_ptr c namespace path \<rparr>]) = Inr made"
        by (simp add: refs)
      then show ?thesis using Cons.IH by fastforce
    qed
  qed
qed

lemma mapToHTTPRouteRules_rules_declared:
  "mapToHTTPRouteRules_rules c namespace rules result = Inr made \<Longrightarrow>
   made = result @ declaredRules (pathBackendRefs_ptr c namespace) [] rules"
proof (induction rules arbitrary: result)
  case Nil
  then show ?case by (simp add: declaredRules_def)
next
  case (Cons rule rules)
  show ?case
  proof (cases "ir_HTTP rule")
    case None
    with Cons.prems Cons.IH show ?thesis
      by (fastforce simp add: declaredRules_def)
  next
    case (Some http)
    show ?thesis
    proof (cases "mapToHTTPRouteRules_paths c namespace (hirv_Paths http) result")
      case (Inl err)
      with Some Cons.prems show ?thesis by simp
    next
      case (Inr result')
      with Some Cons.prems
      have "made = result' @ declaredRules (pathBackendRefs_ptr c namespace) [] rules"
        using Cons.IH by simp
      moreover note mapToHTTPRouteRules_paths_declared [OF Inr]
      ultimately show ?thesis using Some by (simp add: declaredRules_def)
    qed
  qed
qed

lemma groupRulesByHostname_loop_filter:
  "groupRulesByHostname_loop result rules hostname
     = result hostname @ filter (\<lambda>rule. ir_Host rule = hostname) rules"
  by (induction rules arbitrary: result) simp_all

lemma compareHTTPRouteRule_lexicographic:
  "compareHTTPRouteRule a b \<le> 0 \<longleftrightarrow>
     (strings_Compare (fst (sortKey a)) (fst (sortKey b)) < 0
      \<or> (fst (sortKey a) = fst (sortKey b)
          \<and> strings_Compare (snd (sortKey a)) (snd (sortKey b)) \<le> 0))"
  by (auto simp add: compareHTTPRouteRule_keys sortKey_def strings_Compare_refl
      dest: strings_Compare_eq0)

text \<open>
  Claim C8, as the code has it.  \<open>compareHTTPRouteRule\<close> is the lexicographic
  comparison of the sort key of a rule, the value of its first path match and then the
  name of its first backend.  In the variant that builds the rules with
  \<open>mapToHTTPRouteRules\<close>, the rules handed over for a host by \<open>groupRulesByHostname\<close>
  are the rules of the Ingress for that host in declared order, and the list returned
  is their stable sort: it is sorted by \<open>compareHTTPRouteRule\<close>, the rules of each
  sort key are the declared rules of that key in declared order, and it is the only
  list with these two properties.  \<open>createHTTPRouteRules\<close> of \<open>ingress_controller.go\<close>
  does not sort: the list it returns is the list of the declared rules in declared
  order, rule by rule and path by path, each with its path match and backend
  references, and the rule of the default backend for a rule without an HTTP section.
\<close>

theorem rule_order_is_deterministic:
  "(compareHTTPRouteRule a b \<le> 0 \<longleftrightarrow>
      (strings_Compare (fst (sortKey a)) (fst (sortKey b)) < 0
       \<or> (fst (sortKey a) = fst (sortKey b)
           \<and> strings_Compare (snd (sortKey a)) (snd (sortKey b)) \<le> 0)))
   \<and> groupRulesByHostname allRules hostname = filter (\<lambda>rule. ir_Host rule = hostname) allRules
   \<and> (mapToHTTPRouteRules c namespace rules = Inr emitted \<longrightarrow>
        sorted_wrt (\<lambda>a b. compareHTTPRouteRule a b \<le> 0) emitted
        \<and> (\<forall>k. filter (\<lambda>r. sortKey r = k) emitted
                 = filter (\<lambda>r. sortKey r = k) (declaredRules (pathBackendRefs_ptr c namespace) [] rules))
        \<and> (\<forall>other.
              sorted_wrt (\<lambda>a b. compareHTTPRouteRule a b \<le> 0) other
              \<and> (\<forall>k. filter (\<lambda>r. sortKey r = k) other
                       = filter (\<lambda>r. sortKey r = k) (declaredRules (pathBackendRefs_ptr c namespace) [] rules))
              \<longrightarrow> other = emitted))
   \<and> (createHTTPRouteRules c namespace rules defaultBackendRef = Inr made \<longrightarrow>
        made = declaredRules (pathBackendRefs c namespace defaultBackendRef)
                 (defaultBackendRule defaultBackendRef) rules)"
proof (intro conjI impI allI)
  show "compareHTTPRouteRule a b \<le> 0 \<longleftrightarrow>
      (strings_Compare (fst (sortKey a)) (fst (sortKey b)) < 0
       \<or> (fst (sortKey a) = fst (sortKey b)
           \<and> strings_Compare (snd (sortKey a)) (snd (sortKey b)) \<le> 0))"
    by (rule compareHTTPRouteRule_lexicographic)
  show "groupRulesByHostname allRules hostname = filter (\<lambda>rule. ir_Host rule = hostname) allRules"
    by (simp add: groupRulesByHostname_def groupRulesByHostname_loop_filter)
next
  assume "createHTTPRouteRules c namespace rules defaultBackendRef = Inr made"
  then show "made = declaredRules (pathBackendRefs c namespace defaultBackendRef)
                 (defaultBackendRule defaultBackendRef) rules"
    using createHTTPRouteRules_rules_declared [of c namespace defaultBackendRef rules "[]" made]
    by (simp add: createHTTPRouteRules_def)
next
  let ?declared = "declaredRules (pathBackendRefs_ptr c namespace) [] rules"
  assume a: "mapToHTTPRouteRules c namespace rules = Inr emitted"
  then obtain unsorted where u: "mapToHTTPRouteRules_rules c namespace rules [] = Inr unsorted"
    and s: "emitted = slices_SortStableFunc unsorted compareHTTPRouteRule"
    by (auto simp add: mapToHTTPRouteRules_def split: sum.splits)
  from u have d: "unsorted = ?declared"
    using mapToHTTPRouteRules_rules_declared [of c namespace rules "[]" unsorted] by simp
  show sorted: "sorted_wrt (\<lambda>a b. compareHTTPRouteRule a b \<le> 0) emitted"
    unfolding s by (rule slices_SortStableFunc_rules_sorted)
  show stable: "filter (\<lambda>r. sortKey r = k) emitted = filter (\<lambda>r. sortKey r = k) ?declared" for k
    unfolding s d by (rule slices_SortStableFunc_rules_stable)
  show "other = emitted"
    if "sorted_wrt (\<lambda>a b. compareHTTPRouteRule a b \<le> 0) other
        \<and> (\<forall>k. filter (\<lambda>r. sortKey r = k) other = filter (\<lambda>r. sortKey r = k) ?declared)"
    for other
  proof (rule sorted_stable_unique)
    show "sorted_wrt (\<lambda>a b. compareHTTPRouteRule a b \<le> 0) other"
      using that by simp
    show "sorted_wrt (\<lambda>a b. compareHTTPRouteRule a b \<le> 0) emitted"
      by (rule sorted)
    show "filter (\<lambda>r. sortKey r = k) other = filter (\<lambda>r. sortKey r = k) emitted" for k
    proof -
      from that have "filter (\<lambda>r. sortKey r = k) other = filter (\<lambda>r. sortKey r = k) ?declared"
        by blast
      then show ?thesis by (simp only: stable [of k])
    qed
  qed
qed

theorem rule_order_is_deterministic_witness:
  "map_sum id (map (\<lambda>r. (firstPathValue r, map (\<lambda>b. bor_Port (br_Ref b)) (rr_BackendRefs r))))
      (mapToHTTPRouteRules (ex_cluster ex_tied_paths ex_catchall_gateways) ''demo''
         (is_Rules (ing_Spec ex_tied_paths)))
     = Inr [(''/a'', [Some 1]), (''/a'', [Some 2]), (''/b'', [Some 80])]
   \<and> map_sum id (map (\<lambda>r. (firstPathValue r, map (\<lambda>b. bor_Port (br_Ref b)) (rr_BackendRefs r))))
      (createHTTPRouteRules (ex_cluster ex_tied_paths ex_catchall_gateways) ''demo''
         (is_Rules (ing_Spec ex_tied_paths)) None)
     = Inr [(''/b'', [Some 80]), (''/a'', [Some 1]), (''/a'', [Some 2])]
   \<and> (\<exists>emitted made.
         mapToHTTPRouteRules (ex_cluster ex_tied_paths ex_catchall_gateways) ''demo''
           (is_Rules (ing_Spec ex_tied_paths)) = Inr emitted
       \<and> sorted_wrt (\<lambda>a b. compareHTTPRouteRule a b \<le> 0) emitted
       \<and> filter (\<lambda>r. sortKey r = (''/a'', ''s'')) emitted
           = filter (\<lambda>r. sortKey r = (''/a'', ''s''))
               (declaredRules (pathBackendRefs_ptr (ex_cluster ex_tied_paths ex_catchall_gateways) ''demo'') []
                  (is_Rules (ing_Spec ex_tied_paths)))
       \<and> createHTTPRouteRules (ex_cluster ex_tied_paths ex_catchall_gateways) ''demo''
           (is_Rules (ing_Spec ex_tied_paths)) None = Inr made
       \<and> made = declaredRules (pathBackendRefs (ex_cluster ex_tied_paths ex_catchall_gateways) ''demo'' None)
                  (defaultBackendRule None) (is_Rules (ing_Spec ex_tied_paths)))"
proof -
  let ?c = "ex_cluster ex_tied_paths ex_catchall_gateways"
  let ?rules = "is_Rules (ing_Spec ex_tied_paths)"
  let ?show = "\<lambda>r. (firstPathValue r, map (\<lambda>b. bor_Port (br_Ref b)) (rr_BackendRefs r))"
  have keys: "map_sum id (map ?show) (mapToHTTPRouteRules ?c ''demo'' ?rules)
                = Inr [(''/a'', [Some 1]), (''/a'', [Some 2]), (''/b'', [Some 80])]"
    by code_simp
  then obtain emitted where emitted: "mapToHTTPRouteRules ?c ''demo'' ?rules = Inr emitted"
    by (cases "mapToHTTPRouteRules ?c ''demo'' ?rules") auto
  have order: "map_sum id (map ?show) (createHTTPRouteRules ?c ''demo'' ?rules None)
                = Inr [(''/b'', [Some 80]), (''/a'', [Some 1]), (''/a'', [Some 2])]"
    by code_simp
  then obtain made where made: "createHTTPRouteRules ?c ''demo'' ?rules None = Inr made"
    by (cases "createHTTPRouteRules ?c ''demo'' ?rules None") auto
  note inst = rule_order_is_deterministic
    [where c = ?c and namespace = "''demo''" and rules = ?rules and emitted = emitted
       and defaultBackendRef = None and made = made]
  from inst emitted made have
    "sorted_wrt (\<lambda>a b. compareHTTPRouteRule a b \<le> 0) emitted"
    "filter (\<lambda>r. sortKey r = (''/a'', ''s'')) emitted
       = filter (\<lambda>r. sortKey r = (''/a'', ''s''))
           (declaredRules (pathBackendRefs_ptr ?c ''demo'') [] ?rules)"
    "made = declaredRules (pathBackendRefs ?c ''demo'' None) (defaultBackendRule None) ?rules"
    by blast+
  with keys order emitted made show ?thesis by blast
qed

text \<open>
  The claim as stated has every emitted route carry a sorted rule list.  The pass of
  \<open>ingress_controller.go\<close> over an Ingress that declares \<open>/b\<close> before \<open>/a\<close> stores a
  route whose rules are in that order, which \<open>compareHTTPRouteRule\<close> does not accept
  as sorted.
\<close>

theorem createHTTPRouteRules_unsorted_counterexample:
  "map_option (\<lambda>obj. map firstPathValue (rs_Rules (hr_Spec obj)))
      (httproutes (snd (Reconcile \<lparr> RequireHostname = False \<rparr>
                          (ex_cluster ex_unsorted_paths ex_catchall_gateways) (''demo'', ''web'')))
         (''demo'', ''web-a-example-com'')) = Some [''/b'', ''/a'']
   \<and> map_option (\<lambda>obj. sorted_wrt (\<lambda>a b. compareHTTPRouteRule a b \<le> 0) (rs_Rules (hr_Spec obj)))
      (httproutes (snd (Reconcile \<lparr> RequireHostname = False \<rparr>
                          (ex_cluster ex_unsorted_paths ex_catchall_gateways) (''demo'', ''web'')))
         (''demo'', ''web-a-example-com'')) = Some False"
  by code_simp

section \<open>Runs of the code on concrete objects\<close>

text \<open>
  Claim C1 asks for two routes of different names for an Ingress with two different
  hosts.  \<open>generateHTTPRouteName\<close> replaces \<open>.\<close> by \<open>-\<close> and \<open>*\<close> by \<open>wildcard\<close>, so
  the hosts \<open>*.example.com\<close> and \<open>wildcard.example.com\<close> of the Ingress \<open>web\<close> get the
  same route name, in both variants of the function.  The pass over that Ingress
  returns no error; it creates the route for the first host and then updates the same
  object to the second host, so one route is left where the claim has two.
\<close>

theorem generateHTTPRouteName_collision:
  "generateHTTPRouteName ''web'' ''*.example.com'' = ''web-wildcard-example-com''
   \<and> generateHTTPRouteName ''web'' ''wildcard.example.com'' = ''web-wildcard-example-com''
   \<and> generateHTTPRouteName_utils ''web'' ''*.example.com''
       = generateHTTPRouteName_utils ''web'' ''wildcard.example.com''
   \<and> extractHostnames (is_Rules (ing_Spec ex_colliding_hosts))
       = [''*.example.com'', ''wildcard.example.com'']
   \<and> fst (Reconcile \<lparr> RequireHostname = False \<rparr>
            (ex_cluster ex_colliding_hosts ex_catchall_gateways) (''demo'', ''web'')) = None
   \<and> map (\<lambda>w. case w of
                Create obj \<Rightarrow> (''Create'', om_Name (hr_ObjectMeta obj), rs_Hostnames (hr_Spec obj))
              | Update obj \<Rightarrow> (''Update'', om_Name (hr_ObjectMeta obj), rs_Hostnames (hr_Spec obj)))
        (writes (snd (Reconcile \<lparr> RequireHostname = False \<rparr>
                        (ex_cluster ex_colliding_hosts ex_catchall_gateways) (''demo'', ''web''))))
       = [(''Create'', ''web-wildcard-example-com'', [''*.example.com'']),
          (''Update'', ''web-wildcard-example-com'', [''wildcard.example.com''])]"
  by code_simp

text \<open>
  Claim C2 asks the wildcard pattern \<open>*.example.com\<close> to match exactly the hosts that
  end, without regard to case, in \<open>.example.com\<close>.  \<open>hostnameMatches\<close> strips \<open>*.\<close>
  from the pattern and tests the host for the suffix \<open>example.com\<close>, without the dot
  and with regard to case: \<open>badexample.com\<close> matches and \<open>API.EXAMPLE.COM\<close> does not.
  A subdomain in lower case matches and the bare domain does not, as the claim has it.
\<close>

theorem hostnameMatches_wildcard_misses_label_boundary:
  "hostnameMatches ''badexample.com'' ''*.example.com''
   \<and> \<not> hostnameMatches ''API.EXAMPLE.COM'' ''*.example.com''
   \<and> hostnameMatches ''api.example.com'' ''*.example.com''
   \<and> \<not> hostnameMatches ''example.com'' ''*.example.com''"
  by code_simp

text \<open>
  Claim C5, as the code has it.  \<open>createPathMatch\<close> carries the path over unchanged
  and turns the path type \<open>Prefix\<close> into a prefix match, \<open>Exact\<close> into an exact match,
  \<open>ImplementationSpecific\<close> into a regular expression match, and no path type into
  no match type.
\<close>

theorem createPathMatch_mapping:
  "pm_Value (createPathMatch path) = Some (hip_Path path)
   \<and> (hip_PathType path = Some PathTypePrefix
        \<longrightarrow> pm_Type (createPathMatch path) = Some PathMatchPathPrefix)
   \<and> (hip_PathType path = Some PathTypeExact
        \<longrightarrow> pm_Type (createPathMatch path) = Some PathMatchExact)
   \<and> (hip_PathType path = Some PathTypeImplementationSpecific
        \<longrightarrow> pm_Type (createPathMatch path) = Some PathMatchRegularExpression)
   \<and> (hip_PathType path = None \<longrightarrow> pm_Type (createPathMatch path) = None)"
  by (cases "hip_PathType path")
     (simp_all add: createPathMatch_def Let_def split: PathType.split)

theorem createPathMatch_mapping_witness:
  "createPathMatch (ex_path ''/legacy'' (Some PathTypeImplementationSpecific) (ex_backend ''svc'' 80))
     = \<lparr> pm_Type = Some PathMatchRegularExpression, pm_Value = Some ''/legacy'' \<rparr>
   \<and> createPathMatch (ex_path ''/api'' (Some PathTypePrefix) (ex_backend ''svc'' 80))
     = \<lparr> pm_Type = Some PathMatchPathPrefix, pm_Value = Some ''/api'' \<rparr>
   \<and> createPathMatch (ex_path ''/admin'' (Some PathTypeExact) (ex_backend ''svc'' 80))
     = \<lparr> pm_Type = Some PathMatchExact, pm_Value = Some ''/admin'' \<rparr>
   \<and> createPathMatch (ex_path ''/any'' None (ex_backend ''svc'' 80))
     = \<lparr> pm_Type = None, pm_Value = Some ''/any'' \<rparr>"
  using createPathMatch_mapping
      [of "ex_path ''/legacy'' (Some PathTypeImplementationSpecific) (ex_backend ''svc'' 80)"]
    createPathMatch_mapping [of "ex_path ''/api'' (Some PathTypePrefix) (ex_backend ''svc'' 80)"]
    createPathMatch_mapping [of "ex_path ''/admin'' (Some PathTypeExact) (ex_backend ''svc'' 80)"]
    createPathMatch_mapping [of "ex_path ''/any'' None (ex_backend ''svc'' 80)"]
  by (simp add: ex_path_def HTTPPathMatch.equality)

text \<open>
  The claim as stated has \<open>ImplementationSpecific\<close> give a prefix match.  For the path
  \<open>/legacy\<close> with that path type the match type is not the prefix one.
\<close>

theorem createPathMatch_ImplementationSpecific_counterexample:
  "pm_Type (createPathMatch
              (ex_path ''/legacy'' (Some PathTypeImplementationSpecific) (ex_backend ''svc'' 80)))
     \<noteq> Some PathMatchPathPrefix"
  by (simp add: createPathMatch_def ex_path_def)

text \<open>
  Claim C9 asks the pass to fail when the Ingress has no rule with a host, has a
  default backend, \<open>RequireHostname\<close> is off and no listener is a catch-all.  The pass
  takes the default backend branch only when \<open>extractHostnames\<close> returns no host, and
  \<open>extractHostnames\<close> returns the empty host of a rule without a host.  For the Ingress
  \<open>ex_hostless\<close> and a Gateway with an exact listener only, the pass goes through the
  loop over the hosts with the one empty host, finds no parent reference for it and
  returns no error and writes nothing.  With no rules at all the same cluster gives the
  error of \<open>createDefaultBackendSpec\<close>.  With a catch-all listener the rule without a
  host yields a route named \<open>web-\<close> whose host name is empty.
\<close>

theorem Reconcile_hostless_rule_skips_default_backend:
  "extractHostnames (is_Rules (ing_Spec ex_hostless)) = [[]]
   \<and> findCatchAllGateways ''demo'' ex_exact_gateways = []
   \<and> fst (Reconcile \<lparr> RequireHostname = False \<rparr>
            (ex_cluster ex_hostless ex_exact_gateways) (''demo'', ''web'')) = None
   \<and> writes (snd (Reconcile \<lparr> RequireHostname = False \<rparr>
            (ex_cluster ex_hostless ex_exact_gateways) (''demo'', ''web''))) = []
   \<and> fst (Reconcile \<lparr> RequireHostname = False \<rparr>
            (ex_cluster (ex_ingress [] (Some (ex_backend ''fallback'' 80))) ex_exact_gateways)
            (''demo'', ''web''))
       = Some (Errorf ''no catch-all gateways found for default backend'')
   \<and> map (\<lambda>w. case w of
                Create obj \<Rightarrow> (''Create'', om_Name (hr_ObjectMeta obj), rs_Hostnames (hr_Spec obj))
              | Update obj \<Rightarrow> (''Update'', om_Name (hr_ObjectMeta obj), rs_Hostnames (hr_Spec obj)))
        (writes (snd (Reconcile \<lparr> RequireHostname = False \<rparr>
                        (ex_cluster ex_hostless ex_catchall_gateways) (''demo'', ''web''))))
       = [(''Create'', ''web-'', [[]])]"
  by code_simp

end
